theory Spec2Isabelle
  imports Complex_Main
begin

section \<open>Strings\<close>

text \<open>
  The scraper works on JavaScript strings. A string is modelled as a \<^typ>\<open>string\<close>
  whose characters are the code units U+0000 .. U+00FF, numbered by \<^term>\<open>of_char\<close>.
  Coordinates and scores are modelled as exact rationals, the delay in hours as a double
  (see \<open>jsnumber\<close> below), counters as natural numbers. A field that can be \<open>null\<close> or
  \<open>undefined\<close> is an \<open>option\<close>; a \<open>Map\<close> that is only read is a function into \<open>option\<close>,
  and the \<open>Map\<close> that the aggregation fills is an association list in insertion order.
\<close>

definition isSpace :: "char \<Rightarrow> bool" where
  \<comment> \<open>the class \<open>\s\<close> of a regular expression, which is also what \<open>trim\<close> removes:
      TAB, LF, VT, FF, CR, SPACE and NO-BREAK SPACE\<close>
  "isSpace c = (let n = (of_char c :: int) in (9 \<le> n \<and> n \<le> 13) \<or> n = 32 \<or> n = 160)"

definition isDigit :: "char \<Rightarrow> bool" where
  "isDigit c = (let n = (of_char c :: int) in 48 \<le> n \<and> n \<le> 57)"

definition isLowerAlnum :: "char \<Rightarrow> bool" where
  \<comment> \<open>the class \<open>[a-z0-9]\<close>\<close>
  "isLowerAlnum c = (let n = (of_char c :: int) in (97 \<le> n \<and> n \<le> 122) \<or> (48 \<le> n \<and> n \<le> 57))"

definition toLowerChar :: "char \<Rightarrow> char" where
  "toLowerChar c =
     (let n = (of_char c :: int)
      in if (65 \<le> n \<and> n \<le> 90) \<or> (192 \<le> n \<and> n \<le> 214) \<or> (216 \<le> n \<and> n \<le> 222)
         then char_of (n + 32) else c)"

definition toLowerCase :: "string \<Rightarrow> string" where
  "toLowerCase s = map toLowerChar s"

definition toUpperChar :: "char \<Rightarrow> string" where
  \<comment> \<open>U+00DF (sharp s) has the two-letter capital \<open>SS\<close>. The capitals of U+00B5 and U+00FF
      lie above U+00FF; these two characters are left as they are.\<close>
  "toUpperChar c =
     (let n = (of_char c :: int)
      in if (97 \<le> n \<and> n \<le> 122) \<or> (224 \<le> n \<and> n \<le> 246) \<or> (248 \<le> n \<and> n \<le> 254)
         then [char_of (n - 32)]
         else if n = 223 then ''SS'' else [c])"

definition toUpperCase :: "string \<Rightarrow> string" where
  "toUpperCase s = concat (map toUpperChar s)"

definition trim :: "string \<Rightarrow> string" where
  "trim s = rev (dropWhile isSpace (rev (dropWhile isSpace s)))"

definition removeSpaces :: "string \<Rightarrow> string" where
  \<comment> \<open>\<open>.replace(/\s+/g, '')\<close>\<close>
  "removeSpaces s = filter (\<lambda>c. \<not> isSpace c) s"

fun splitOn :: "char \<Rightarrow> string \<Rightarrow> string list" where
  \<comment> \<open>\<open>s.split(d)\<close> for a one-character separator\<close>
  "splitOn d [] = [[]]"
| "splitOn d (c # cs) =
     (if c = d then [] # splitOn d cs
      else (case splitOn d cs of p # ps \<Rightarrow> (c # p) # ps | [] \<Rightarrow> [[c]]))"

function replaceRuns :: "(char \<Rightarrow> bool) \<Rightarrow> string \<Rightarrow> string \<Rightarrow> string" where
  \<comment> \<open>\<open>.replace(/[P]+/g, r)\<close>: every maximal run of characters in the class becomes \<open>r\<close>\<close>
  "replaceRuns P r [] = []"
| "replaceRuns P r (c # cs) =
     (if P c then r @ replaceRuns P r (dropWhile P cs) else c # replaceRuns P r cs)"
  by pat_completeness auto
termination
  by (relation "measure (\<lambda>(P, r, s). length s)") (auto simp: length_dropWhile_le less_Suc_eq_le)

fun includesStr :: "string \<Rightarrow> string \<Rightarrow> bool" where
  \<comment> \<open>\<open>s.includes(t)\<close>\<close>
  "includesStr [] t = (t = [])"
| "includesStr (c # cs) t = (take (length t) (c # cs) = t \<or> includesStr cs t)"

definition wordsOf :: "string \<Rightarrow> string list" where
  \<comment> \<open>\<open>s.split(/\s+/).filter(Boolean)\<close>\<close>
  "wordsOf s = filter (\<lambda>w. w \<noteq> []) (splitOn (CHR '' '') (replaceRuns isSpace '' '' s))"

section \<open>Normalisers\<close>

definition normalizeLocationKey :: "string \<Rightarrow> string" where
  "normalizeLocationKey s =
     filter (\<lambda>c. c \<noteq> CHR ''_'')
       (filter (\<lambda>c. c \<noteq> CHR ''.'')
         (filter (\<lambda>c. c \<noteq> CHR ''-'')
           (removeSpaces (toUpperCase s))))"

definition normalizeSimple :: "string \<Rightarrow> string" where
  "normalizeSimple name = removeSpaces (toLowerCase name)"

function parenGroups :: "string \<Rightarrow> string list" where
  \<comment> \<open>\<open>str.match(/\(([^)]+)\)/g)\<close>: the matches from left to right, none overlapping\<close>
  "parenGroups [] = []"
| "parenGroups (c # cs) =
     (if c = CHR ''('' \<and> CHR '')'' \<in> set cs \<and> takeWhile (\<lambda>x. x \<noteq> CHR '')'') cs \<noteq> []
      then (c # takeWhile (\<lambda>x. x \<noteq> CHR '')'') cs @ '')'')
             # parenGroups (tl (dropWhile (\<lambda>x. x \<noteq> CHR '')'') cs))
      else parenGroups cs)"
  by pat_completeness auto
termination
  by (relation "measure length")
     (auto simp: length_dropWhile_le less_Suc_eq_le intro: le_trans [OF diff_le_self])

definition stripParenChars :: "string \<Rightarrow> string" where
  \<comment> \<open>\<open>.replace(/[()]/g, '')\<close>\<close>
  "stripParenChars s = filter (\<lambda>c. c \<noteq> CHR ''('' \<and> c \<noteq> CHR '')'') s"

definition extractCodeInParensTS :: "string \<Rightarrow> string" where
  "extractCodeInParensTS name =
     (case parenGroups name of
        [] \<Rightarrow> []
      | m # ms \<Rightarrow> trim (stripParenChars (last (m # ms))))"

section \<open>Merging the export with the route master\<close>

record ParsedRow =
  vehicleNumber :: string
  lastLocationDate :: string
  vehicleGroup :: string
  lastLocation :: string
  speedKmph :: string
  consignerName :: string
  consigneeName :: string
  dispatchDate :: string
  eta :: string
  plannedDistance :: string
  remainingDistance :: string
  tripStatus :: string
  delayTime :: string
  rpsNumber :: string

definition extractSourceFromConsigner :: "string \<Rightarrow> string" where
  "extractSourceFromConsigner consigner =
     (if consigner = [] then []
      else (case splitOn (CHR '';'') consigner of p # ps \<Rightarrow> trim p | [] \<Rightarrow> []))"

definition extractDestinationFromConsignee :: "string \<Rightarrow> string" where
  "extractDestinationFromConsignee consignee =
     (if consignee = [] then []
      else (case splitOn (CHR '';'') consignee of p # ps \<Rightarrow> trim (last (p # ps)) | [] \<Rightarrow> []))"

definition extractCityFromConsignerName :: "string \<Rightarrow> string" where
  "extractCityFromConsignerName consigner =
     (case splitOn (CHR ''-'') (extractSourceFromConsigner consigner) of
        p # ps \<Rightarrow> trim p | [] \<Rightarrow> [])"

definition extractCityFromConsigneeName :: "string \<Rightarrow> string" where
  "extractCityFromConsigneeName consignee =
     (case splitOn (CHR ''('') (extractDestinationFromConsignee consignee) of
        p # ps \<Rightarrow> (case wordsOf (trim p) of [] \<Rightarrow> [] | w # ws \<Rightarrow> last (w # ws))
      | [] \<Rightarrow> [])"

definition extractBranchCodeFromConsignee :: "string \<Rightarrow> string" where
  "extractBranchCodeFromConsignee consignee =
     extractCodeInParensTS (extractDestinationFromConsignee consignee)"

definition makeRouteKey :: "string \<Rightarrow> string \<Rightarrow> string" where
  "makeRouteKey src dst = normalizeSimple src @ ''___'' @ normalizeSimple dst"

datatype TripSide = Up | Down

record RouteIndexItem =
  r_id :: string
  RouteName :: string
  Route_Side :: "TripSide option"
  Source :: "string option"
  Destination :: "string option"
  Middle_Stops :: "string list option"

record LiveMergedRow = ParsedRow +
  routeId :: "string option"
  routeName :: "string option"
  routeSource :: "string option"
  routeDestination :: "string option"
  routeSourceLat :: "rat option"
  routeSourceLng :: "rat option"
  routeDestinationLat :: "rat option"
  routeDestinationLng :: "rat option"
  routeSide :: "TripSide option"
  routeMiddleStops :: "string list option"
  sourceExtracted :: string
  destinationExtracted :: string
  matchKey :: string

definition truthy :: "string option \<Rightarrow> bool" where
  \<comment> \<open>a string-valued field in a condition: \<open>undefined\<close>, \<open>null\<close> and \<open>''\<close> count as false\<close>
  "truthy v = (case v of None \<Rightarrow> False | Some s \<Rightarrow> s \<noteq> [])"

definition buildRouteIndex :: "RouteIndexItem list \<Rightarrow> (string \<Rightarrow> RouteIndexItem option)" where
  \<comment> \<open>the loop of \<open>buildRouteIndex\<close> over the routes read from the database\<close>
  "buildRouteIndex routes =
     foldl (\<lambda>m r. if truthy (Source r) \<and> truthy (Destination r)
                   then (case (Source r, Destination r) of
                           (Some s, Some d) \<Rightarrow> m(makeRouteKey s d \<mapsto> r)
                         | _ \<Rightarrow> m)
                   else m)
           Map.empty routes"

definition mergeRow :: "(string \<Rightarrow> RouteIndexItem option) \<Rightarrow> ParsedRow \<Rightarrow> LiveMergedRow" where
  "mergeRow routeIndex rec =
     (let rawSource = extractSourceFromConsigner (consignerName rec);
          rawDestination = extractDestinationFromConsignee (consigneeName rec);
          key = makeRouteKey rawSource rawDestination;
          route = routeIndex key
      in ParsedRow.extend rec
           (LiveMergedRow.fields
              (map_option r_id route)
              (map_option RouteName route)
              (Option.bind route Source)
              (Option.bind route Destination)
              None None None None
              (Option.bind route Route_Side)
              (Option.bind route Middle_Stops)
              rawSource rawDestination key))"

definition mergeWithRoutes ::
  "ParsedRow list \<Rightarrow> (string \<Rightarrow> RouteIndexItem option) \<Rightarrow> LiveMergedRow list" where
  "mergeWithRoutes rows routeIndex = map (mergeRow routeIndex) rows"

section \<open>Unmatched pairs\<close>

record UnmatchedRoutePair =
  u_consignerName :: string
  u_consigneeName :: string
  u_sourceExtracted :: string
  u_destinationExtracted :: string
  u_matchKey :: string

definition unmatchedKey :: "LiveMergedRow \<Rightarrow> string" where
  "unmatchedKey row = matchKey row @ ''|'' @ consignerName row @ ''|'' @ consigneeName row"

definition toUnmatchedPair :: "LiveMergedRow \<Rightarrow> UnmatchedRoutePair" where
  "toUnmatchedPair row =
     \<lparr> u_consignerName = consignerName row,
       u_consigneeName = consigneeName row,
       u_sourceExtracted = sourceExtracted row,
       u_destinationExtracted = destinationExtracted row,
       u_matchKey = matchKey row \<rparr>"

fun collectLoop :: "string set \<Rightarrow> LiveMergedRow list \<Rightarrow> UnmatchedRoutePair list" where
  \<comment> \<open>the \<open>for\<close> loop of \<open>collectUnmatched\<close>; the first argument is the set \<open>seen\<close>\<close>
  "collectLoop seen [] = []"
| "collectLoop seen (row # rows) =
     (if truthy (routeId row) then collectLoop seen rows
      else if unmatchedKey row \<in> seen then collectLoop seen rows
      else toUnmatchedPair row # collectLoop (insert (unmatchedKey row) seen) rows)"

definition collectUnmatched :: "LiveMergedRow list \<Rightarrow> UnmatchedRoutePair list" where
  "collectUnmatched merged = collectLoop {} merged"

section \<open>Lateness and expected arrival\<close>

text \<open>
  A JavaScript number is a double. A finite double is modelled by its exact rational value,
  the two zeros are not told apart, and \<open>toDouble\<close> rounds a rational to the nearest double,
  ties to the even significand, with overflow to an infinity. The arithmetic of the code is
  the exact operation followed by this rounding.
\<close>

datatype jsnumber = Finite rat | PosInf | NegInf | NaN

function pow2n :: "int \<Rightarrow> rat" where
  \<comment> \<open>\<open>2 ^ k\<close> for \<open>k \<ge> 0\<close>, by repeated squaring\<close>
  "pow2n k =
     (if k \<le> 0 then 1
      else if even k then (let h = pow2n (k div 2) in h * h)
      else 2 * pow2n (k - 1))"
  by pat_completeness auto
termination
  by (relation "measure nat") auto

declare pow2n.simps [simp del]

definition pow2 :: "int \<Rightarrow> rat" where
  "pow2 k = (if 0 \<le> k then pow2n k else 1 / pow2n (- k))"

function bitLength :: "int \<Rightarrow> int" where
  \<comment> \<open>the number of binary digits of a positive integer\<close>
  "bitLength n = (if n \<le> 0 then 0 else 1 + bitLength (n div 2))"
  by pat_completeness auto
termination
  by (relation "measure nat") auto

declare bitLength.simps [simp del]

definition floorLog2 :: "rat \<Rightarrow> int" where
  \<comment> \<open>for \<open>a > 0\<close>, the \<open>e\<close> with \<open>2 ^ e \<le> a < 2 ^ (e + 1)\<close>\<close>
  "floorLog2 a =
     (case quotient_of a of (p, q) \<Rightarrow>
        (let d = bitLength p - bitLength q in if pow2 d \<le> a then d else d - 1))"

definition roundHalfEven :: "rat \<Rightarrow> int" where
  "roundHalfEven q =
     (let n = \<lfloor>q\<rfloor>; r = q - of_int n
      in if r < 1 / 2 then n else if 1 / 2 < r then n + 1 else if even n then n else n + 1)"

definition toDouble :: "rat \<Rightarrow> jsnumber" where
  \<comment> \<open>binary64: 53 significant bits, least exponent \<open>-1022\<close> (below it the spacing stays
      \<open>2 ^ -1074\<close>), infinity from \<open>2 ^ 1024\<close> on\<close>
  "toDouble x =
     (if x = 0 then Finite 0
      else let a = \<bar>x\<bar>;
               p = max (floorLog2 a) (- 1022) - 52;
               y = of_int (roundHalfEven (a / pow2 p)) * pow2 p
           in if pow2 1024 \<le> y then (if 0 < x then PosInf else NegInf)
              else Finite (if 0 < x then y else - y))"

fun addNumber :: "jsnumber \<Rightarrow> jsnumber \<Rightarrow> jsnumber" where
  \<comment> \<open>\<open>x + y\<close>\<close>
  "addNumber NaN y = NaN"
| "addNumber x NaN = NaN"
| "addNumber PosInf NegInf = NaN"
| "addNumber NegInf PosInf = NaN"
| "addNumber PosInf y = PosInf"
| "addNumber x PosInf = PosInf"
| "addNumber NegInf y = NegInf"
| "addNumber x NegInf = NegInf"
| "addNumber (Finite a) (Finite b) = toDouble (a + b)"

fun divByConst :: "jsnumber \<Rightarrow> rat \<Rightarrow> jsnumber" where
  \<comment> \<open>\<open>x / c\<close> for a constant \<open>c\<close> that is a positive finite double\<close>
  "divByConst (Finite a) c = toDouble (a / c)"
| "divByConst x c = x"

fun greaterThanZero :: "jsnumber \<Rightarrow> bool" where
  \<comment> \<open>\<open>x > 0\<close>\<close>
  "greaterThanZero (Finite a) = (0 < a)"
| "greaterThanZero PosInf = True"
| "greaterThanZero x = False"

definition digitsValue :: "string \<Rightarrow> int" where
  \<comment> \<open>the number written by a string of decimal digits\<close>
  "digitsValue ds = foldl (\<lambda>a c. 10 * a + (of_char c - 48)) 0 ds"

definition parseInt10 :: "string \<Rightarrow> jsnumber" where
  \<comment> \<open>\<open>parseInt(s, 10)\<close>: leading white space is skipped, one sign is read, then the longest
      run of digits; what follows the digits is ignored. The result is the double nearest to
      the number read, and \<open>NaN\<close> when there is no digit. (Beyond twenty significant digits
      the language lets an implementation replace the further digits by zeros; the model
      rounds the number as written.)\<close>
  "parseInt10 s =
     (let t = dropWhile isSpace s;
          neg = (case t of c # cs \<Rightarrow> c = CHR ''-'' | [] \<Rightarrow> False);
          u = (case t of c # cs \<Rightarrow> if c = CHR ''+'' \<or> c = CHR ''-'' then cs else t | [] \<Rightarrow> []);
          ds = takeWhile isDigit u
      in if ds = [] then NaN
         else toDouble (if neg then - of_int (digitsValue ds) else of_int (digitsValue ds)))"

definition orZero :: "jsnumber \<Rightarrow> jsnumber" where
  \<comment> \<open>\<open>x || 0\<close>: zero and \<open>NaN\<close> count as false\<close>
  "orZero x = (case x of NaN \<Rightarrow> Finite 0 | _ \<Rightarrow> x)"

definition fieldOrZero :: "jsnumber list \<Rightarrow> nat \<Rightarrow> jsnumber" where
  \<comment> \<open>\<open>parts[i] || 0\<close>\<close>
  "fieldOrZero parts i = (if i < length parts then orZero (parts ! i) else Finite 0)"

definition parseDelayToHours :: "string \<Rightarrow> jsnumber" where
  "parseDelayToHours delay =
     (if delay = [] then Finite 0
      else let parts = map parseInt10 (splitOn (CHR '':'') delay)
           in if length parts < 2 \<or> list_ex (\<lambda>n. n = NaN) parts then Finite 0
              else let hh = fieldOrZero parts 0; mm = fieldOrZero parts 1; ss = fieldOrZero parts 2
                   in addNumber (addNumber hh (divByConst mm 60)) (divByConst ss 3600))"

definition pickEtaForDestination :: "string \<Rightarrow> string" where
  "pickEtaForDestination e =
     (if e = [] then []
      else (case filter (\<lambda>p. p \<noteq> [] \<and> toUpperCase p \<noteq> ''NA'') (map trim (splitOn (CHR '';'') e)) of
              [] \<Rightarrow> []
            | p # ps \<Rightarrow> last (p # ps)))"

section \<open>Aggregation into routes with an Up and a Down bucket\<close>

record LiveRouteVehicleEntry =
  e_vehicleNumber :: string
  e_rpsNumber :: "string option"
  e_dispatchDate :: string
  e_lastLocationDate :: string
  e_lastLocation :: string
  lateHours :: jsnumber
  middleStops :: "string list"
  expectedArrival :: string
  e_lat :: "rat option"
  e_lng :: "rat option"

record LiveRouteSideBucket =
  totalVehicles :: nat
  lateVehicles :: nat
  vehicles :: "LiveRouteVehicleEntry list"

record LiveRouteRoute =
  lr_id :: string
  source :: string
  destination :: string
  sourceLat :: "rat option"
  sourceLng :: "rat option"
  destLat :: "rat option"
  destLng :: "rat option"
  up :: LiveRouteSideBucket
  down :: LiveRouteSideBucket

record VehicleLatLng =
  lat :: "rat option"
  lng :: "rat option"

definition emptyBucket :: LiveRouteSideBucket where
  "emptyBucket = \<lparr> totalVehicles = 0, lateVehicles = 0, vehicles = [] \<rparr>"

definition newRoute :: "string \<Rightarrow> string \<Rightarrow> string \<Rightarrow> LiveMergedRow \<Rightarrow> LiveRouteRoute" where
  "newRoute rid src dst row =
     \<lparr> lr_id = rid, source = src, destination = dst,
       sourceLat = routeSourceLat row, sourceLng = routeSourceLng row,
       destLat = routeDestinationLat row, destLng = routeDestinationLng row,
       up = emptyBucket, down = emptyBucket \<rparr>"

definition makeVehicleEntry ::
  "(string \<Rightarrow> VehicleLatLng option) \<Rightarrow> LiveMergedRow \<Rightarrow> LiveRouteVehicleEntry" where
  "makeVehicleEntry coordsByVehicle row =
     (let coord = coordsByVehicle (trim (vehicleNumber row))
      in \<lparr> e_vehicleNumber = vehicleNumber row,
           e_rpsNumber = (if rpsNumber row = [] then None else Some (rpsNumber row)),
           e_dispatchDate = dispatchDate row,
           e_lastLocationDate = lastLocationDate row,
           e_lastLocation = lastLocation row,
           lateHours = parseDelayToHours (delayTime row),
           middleStops = (case routeMiddleStops row of None \<Rightarrow> [] | Some ms \<Rightarrow> ms),
           expectedArrival = pickEtaForDestination (eta row),
           e_lat = Option.bind coord lat,
           e_lng = Option.bind coord lng \<rparr>)"

definition pushVehicle :: "LiveRouteVehicleEntry \<Rightarrow> LiveRouteSideBucket \<Rightarrow> LiveRouteSideBucket" where
  "pushVehicle e b =
     \<lparr> totalVehicles = totalVehicles b + 1,
       lateVehicles = (if greaterThanZero (lateHours e) then lateVehicles b + 1 else lateVehicles b),
       vehicles = vehicles b @ [e] \<rparr>"

definition addToSide :: "TripSide \<Rightarrow> LiveRouteVehicleEntry \<Rightarrow> LiveRouteRoute \<Rightarrow> LiveRouteRoute" where
  "addToSide sd e r =
     (case sd of Up \<Rightarrow> r\<lparr> up := pushVehicle e (up r) \<rparr>
               | Down \<Rightarrow> r\<lparr> down := pushVehicle e (down r) \<rparr>)"

definition backfillCoords :: "LiveMergedRow \<Rightarrow> LiveRouteRoute \<Rightarrow> LiveRouteRoute" where
  "backfillCoords row r =
     (let r1 = (if sourceLat r = None \<and> routeSourceLat row \<noteq> None
                then r\<lparr> sourceLat := routeSourceLat row, sourceLng := routeSourceLng row \<rparr>
                else r)
      in if destLat r1 = None \<and> routeDestinationLat row \<noteq> None
         then r1\<lparr> destLat := routeDestinationLat row, destLng := routeDestinationLng row \<rparr>
         else r1)"

definition modifyRoute ::
  "string \<Rightarrow> (LiveRouteRoute \<Rightarrow> LiveRouteRoute) \<Rightarrow> (string \<times> LiveRouteRoute) list
     \<Rightarrow> (string \<times> LiveRouteRoute) list" where
  \<comment> \<open>in-place mutation of the object stored under a key; the key keeps its position\<close>
  "modifyRoute rid f st = map (\<lambda>(k, r). if k = rid then (k, f r) else (k, r)) st"

definition aggStep ::
  "(string \<Rightarrow> VehicleLatLng option) \<Rightarrow> (string \<times> LiveRouteRoute) list \<Rightarrow> LiveMergedRow
     \<Rightarrow> (string \<times> LiveRouteRoute) list" where
  \<comment> \<open>one turn of the \<open>for\<close> loop of \<open>aggregateLiveRoutes\<close>; the state is \<open>routeMap\<close>,
      in insertion order\<close>
  "aggStep coordsByVehicle st row =
     (if \<not> truthy (routeId row) \<or> \<not> truthy (routeSource row) \<or> \<not> truthy (routeDestination row)
      then st
      else (case (routeId row, routeSource row, routeDestination row) of
              (Some rid, Some src, Some dst) \<Rightarrow>
                (let st1 = (case map_of st rid of
                              None \<Rightarrow> st @ [(rid, newRoute rid src dst row)]
                            | Some b \<Rightarrow> st)
                 in case routeSide row of
                      None \<Rightarrow> st1
                    | Some sd \<Rightarrow>
                        modifyRoute rid
                          (\<lambda>r. backfillCoords row (addToSide sd (makeVehicleEntry coordsByVehicle row) r))
                          st1)
            | _ \<Rightarrow> st))"

definition aggregateLiveRoutes ::
  "LiveMergedRow list \<Rightarrow> (string \<Rightarrow> VehicleLatLng option) \<Rightarrow> LiveRouteRoute list" where
  "aggregateLiveRoutes merged coordsByVehicle = map snd (foldl (aggStep coordsByVehicle) [] merged)"

section \<open>Endpoint coordinates from the telemetry dropdowns\<close>

record LocationEntry =
  rawName :: string
  loc_lat :: rat
  loc_lng :: rat

record LocationMaps =
  cityByNormName :: "string \<Rightarrow> LocationEntry option"
  landmarkByNormCode :: "string \<Rightarrow> LocationEntry option"
  landmarkByNormName :: "string \<Rightarrow> LocationEntry option"

definition lookupCityThenLandmark :: "LocationMaps \<Rightarrow> string \<Rightarrow> LocationEntry option" where
  "lookupCityThenLandmark loc key =
     (case cityByNormName loc key of
        Some cityEntry \<Rightarrow> Some cityEntry
      | None \<Rightarrow> landmarkByNormName loc key)"

definition fmsSource :: "LocationMaps \<Rightarrow> LiveMergedRow \<Rightarrow> rat option \<times> rat option" where
  \<comment> \<open>\<open>(fmsSrcLat, fmsSrcLng)\<close> as they stand before the final values are computed\<close>
  "fmsSource loc row =
     (let srcCityRaw = extractCityFromConsignerName (consignerName row)
      in if srcCityRaw = [] then (None, None)
         else (case lookupCityThenLandmark loc (normalizeLocationKey srcCityRaw) of
                 Some e \<Rightarrow> (Some (loc_lat e), Some (loc_lng e))
               | None \<Rightarrow> (None, None)))"

definition fmsDestination :: "LocationMaps \<Rightarrow> LiveMergedRow \<Rightarrow> rat option \<times> rat option" where
  \<comment> \<open>\<open>(fmsDestLat, fmsDestLng)\<close> as they stand before the final values are computed\<close>
  "fmsDestination loc row =
     (let destBranchCode = extractBranchCodeFromConsignee (consigneeName row);
          byCode = (if destBranchCode = [] then (None, None)
                    else (case landmarkByNormCode loc (normalizeLocationKey destBranchCode) of
                            Some e \<Rightarrow> (Some (loc_lat e), Some (loc_lng e))
                          | None \<Rightarrow> (None, None)))
      in if fst byCode = None \<or> snd byCode = None
         then (let destCityRaw = extractCityFromConsigneeName (consigneeName row)
               in if destCityRaw = [] then byCode
                  else (case lookupCityThenLandmark loc (normalizeLocationKey destCityRaw) of
                          Some e \<Rightarrow> (Some (loc_lat e), Some (loc_lng e))
                        | None \<Rightarrow> byCode))
         else byCode)"

definition orElse :: "'a option \<Rightarrow> 'a option \<Rightarrow> 'a option" where
  \<comment> \<open>\<open>a ?? b\<close>\<close>
  "orElse a b = (case a of Some v \<Rightarrow> Some v | None \<Rightarrow> b)"

definition attachRow :: "LocationMaps \<Rightarrow> LiveMergedRow \<Rightarrow> LiveMergedRow" where
  "attachRow loc row =
     (let fmsSrc = fmsSource loc row; fmsDest = fmsDestination loc row
      in row\<lparr> routeSourceLat := orElse (fst fmsSrc) (routeSourceLat row),
              routeSourceLng := orElse (snd fmsSrc) (routeSourceLng row),
              routeDestinationLat := orElse (fst fmsDest) (routeDestinationLat row),
              routeDestinationLng := orElse (snd fmsDest) (routeDestinationLng row) \<rparr>)"

definition attachLocationCoordsFromFms :: "LiveMergedRow list \<Rightarrow> LocationMaps \<Rightarrow> LiveMergedRow list" where
  \<comment> \<open>the rows are updated in place; the model returns the updated list\<close>
  "attachLocationCoordsFromFms merged loc = map (attachRow loc) merged"

section \<open>Fuzzy matching against the location table\<close>

record LocationRow =
  name :: string
  Latitude :: rat
  Longitude :: rat

record LocationMatchScore =
  score :: rat
  byCode :: bool

function spaceBeforeParen :: "string \<Rightarrow> string" where
  \<comment> \<open>\<open>.replace(/\s*\(/g, ' (')\<close>\<close>
  "spaceBeforeParen [] = []"
| "spaceBeforeParen (c # cs) =
     (if c = CHR ''('' then '' ('' @ spaceBeforeParen cs
      else if isSpace c
      then (case dropWhile isSpace cs of
              d # ds \<Rightarrow> if d = CHR ''('' then '' ('' @ spaceBeforeParen ds
                        else c # spaceBeforeParen cs
            | [] \<Rightarrow> c # spaceBeforeParen cs)
      else c # spaceBeforeParen cs)"
  by pat_completeness auto
termination
proof (relation "measure length")
  fix c :: char and cs d ds
  assume "dropWhile isSpace cs = d # ds"
  then have "length (d # ds) \<le> length cs"
    by (metis length_dropWhile_le)
  then show "(ds, c # cs) \<in> measure length"
    by simp
qed simp_all

function removeParenGroups :: "string \<Rightarrow> string" where
  \<comment> \<open>\<open>.replace(/\([^)]*\)/g, ' ')\<close>\<close>
  "removeParenGroups [] = []"
| "removeParenGroups (c # cs) =
     (if c = CHR ''('' \<and> CHR '')'' \<in> set cs
      then '' '' @ removeParenGroups (tl (dropWhile (\<lambda>x. x \<noteq> CHR '')'') cs))
      else c # removeParenGroups cs)"
  by pat_completeness auto
termination
  by (relation "measure length")
     (auto simp: length_dropWhile_le less_Suc_eq_le intro: le_trans [OF diff_le_self])

definition normalizeBaseName :: "string \<Rightarrow> string" where
  "normalizeBaseName s =
     trim (replaceRuns isSpace '' ''
       (replaceRuns (\<lambda>c. \<not> (isLowerAlnum c \<or> c = CHR ''('' \<or> c = CHR '')'' \<or> isSpace c)) '' ''
         (spaceBeforeParen (toLowerCase s))))"

definition extractCodeLower :: "string \<Rightarrow> string" where
  "extractCodeLower nm =
     (case parenGroups (normalizeBaseName nm) of
        [] \<Rightarrow> []
      | m # ms \<Rightarrow> toLowerCase (trim (stripParenChars (last (m # ms)))))"

definition stopwords :: "string list" where
  "stopwords = [''at'', ''hub'', ''the'', ''pvt'', ''ltd'']"

definition tokenizeNameWithoutCode :: "string \<Rightarrow> string list" where
  "tokenizeNameWithoutCode nm =
     filter (\<lambda>t. \<not> List.member stopwords t) (wordsOf (removeParenGroups (normalizeBaseName nm)))"

definition jaccardSimilarity :: "string list \<Rightarrow> string list \<Rightarrow> rat" where
  "jaccardSimilarity tokensA tokensB =
     (let setA = remdups tokensA; setB = remdups tokensB;
          common = length (filter (\<lambda>t. List.member setB t) setA);
          unionSize = length setA + length setB - common
      in if unionSize = 0 then 0 else of_nat common / of_nat unionSize)"

definition computeLocationMatchScore :: "string \<Rightarrow> string \<Rightarrow> LocationMatchScore" where
  "computeLocationMatchScore endpointName candidateName =
     (let code1 = extractCodeLower endpointName; code2 = extractCodeLower candidateName
      in if code1 \<noteq> [] \<and> code2 \<noteq> [] \<and> code1 = code2
         then \<lparr> score = 1, byCode = True \<rparr>
         else \<lparr> score = jaccardSimilarity (tokenizeNameWithoutCode endpointName)
                                         (tokenizeNameWithoutCode candidateName),
                byCode = False \<rparr>)"

definition stripSafexpressPrefix :: "string \<Rightarrow> string" where
  \<comment> \<open>\<open>.replace(/^safexpress\s+/, '')\<close>\<close>
  "stripSafexpressPrefix s =
     (if take 10 s = ''safexpress'' \<and> (case drop 10 s of c # cs \<Rightarrow> isSpace c | [] \<Rightarrow> False)
      then dropWhile isSpace (drop 10 s) else s)"

definition keywordTail :: "string \<Rightarrow> bool" where
  \<comment> \<open>the whole string matches \<open>\s+(hub|sds|inbound|outbound)\s*$\<close>\<close>
  "keywordTail s =
     (case s of
        [] \<Rightarrow> False
      | c # cs \<Rightarrow>
          isSpace c \<and>
          (let t = dropWhile isSpace cs
           in list_ex (\<lambda>w. take (length w) t = w \<and> list_all isSpace (drop (length w) t))
                [''hub'', ''sds'', ''inbound'', ''outbound'']))"

fun stripKeywordTail :: "string \<Rightarrow> string" where
  \<comment> \<open>\<open>.replace(/\s+(hub|sds|inbound|outbound)\s*$/g, '')\<close>: the leftmost match is removed\<close>
  "stripKeywordTail [] = []"
| "stripKeywordTail (c # cs) = (if keywordTail (c # cs) then [] else c # stripKeywordTail cs)"

definition buildEndpointCoreKey :: "string \<Rightarrow> string" where
  "buildEndpointCoreKey nm =
     (let s0 = toLowerCase nm;
          s1 = removeParenGroups s0;
          s2 = map (\<lambda>c. if c = CHR ''-'' then CHR '' '' else c) s1;
          s3 = replaceRuns (\<lambda>c. \<not> (isLowerAlnum c \<or> isSpace c)) '' '' s2;
          s4 = trim (replaceRuns isSpace '' '' s3);
          s5 = stripSafexpressPrefix s4;
          s6 = stripKeywordTail s5;
          s7 = trim (replaceRuns isSpace '' '' s6)
      in removeSpaces s7)"

definition buildLocationCoreKey :: "string \<Rightarrow> string" where
  "buildLocationCoreKey nm =
     (let s0 = toLowerCase nm;
          s1 = removeParenGroups s0;
          s2 = map (\<lambda>c. if c = CHR ''-'' then CHR '' '' else c) s1;
          s3 = replaceRuns (\<lambda>c. \<not> (isLowerAlnum c \<or> isSpace c)) '' '' s2
      in removeSpaces s3)"

definition exactMatch :: "string \<Rightarrow> LocationRow \<Rightarrow> bool" where
  \<comment> \<open>the test of tier 1\<close>
  "exactMatch endpointName l = (toLowerCase (trim (name l)) = toLowerCase (trim endpointName))"

definition exactNoSpaceMatch :: "string \<Rightarrow> LocationRow \<Rightarrow> bool" where
  \<comment> \<open>the test of tier 2\<close>
  "exactNoSpaceMatch endpointName l =
     (removeSpaces (toLowerCase (trim (name l))) = removeSpaces (toLowerCase (trim endpointName)))"

definition searchMatch :: "string \<Rightarrow> LocationRow \<Rightarrow> bool" where
  \<comment> \<open>the test of tier 3, for a non-empty core key of the endpoint\<close>
  "searchMatch endpointCore l =
     (includesStr (removeSpaces (toLowerCase (name l))) endpointCore
      \<or> includesStr (buildLocationCoreKey (name l)) endpointCore)"

definition scoreStep ::
  "string \<Rightarrow> LocationRow option \<times> rat \<times> bool \<Rightarrow> LocationRow \<Rightarrow> LocationRow option \<times> rat \<times> bool" where
  \<comment> \<open>one turn of the loop of tier 4 over \<open>(best, bestScore, bestByCode)\<close>\<close>
  "scoreStep endpointName acc loc =
     (case acc of (best, bestScore, bestByCode) \<Rightarrow>
        (let m = computeLocationMatchScore endpointName (name loc);
             isBetter = (score m > bestScore \<or> (byCode m \<and> \<not> bestByCode \<and> score m = bestScore))
         in if isBetter then (Some loc, score m, byCode m) else acc))"

definition bestByScore :: "string \<Rightarrow> LocationRow list \<Rightarrow> rat \<Rightarrow> LocationRow option" where
  "bestByScore endpointName locs threshold =
     (case foldl (scoreStep endpointName) (None, 0, False) locs of
        (best, bestScore, bestByCode) \<Rightarrow>
          (case best of
             None \<Rightarrow> None
           | Some b \<Rightarrow> if bestScore < threshold then None else Some b))"

definition findBestLocationMatch :: "string \<Rightarrow> LocationRow list \<Rightarrow> rat \<Rightarrow> LocationRow option" where
  "findBestLocationMatch endpointName locs threshold =
     (if trim endpointName = [] \<or> locs = [] then None
      else (case find (exactMatch endpointName) locs of
              Some exact \<Rightarrow> Some exact
            | None \<Rightarrow>
               (case find (exactNoSpaceMatch endpointName) locs of
                  Some exactNoSpace \<Rightarrow> Some exactNoSpace
                | None \<Rightarrow>
                   (let endpointCore = buildEndpointCoreKey endpointName
                    in case (if endpointCore = [] then None
                             else find (searchMatch endpointCore) locs) of
                         Some hit \<Rightarrow> Some hit
                       | None \<Rightarrow> bestByScore endpointName locs threshold))))"

section \<open>Notions used in the statements\<close>

definition exampleShipment :: ParsedRow where
  \<comment> \<open>the shipment of the end-to-end example; the fields it leaves open are empty\<close>
  "exampleShipment =
     \<lparr> vehicleNumber = [], lastLocationDate = [], vehicleGroup = [], lastLocation = [],
       speedKmph = [], consignerName = ''LUCKNOW-11'',
       consigneeName = ''SAFEXPRESS AMBALA(AML11)'', dispatchDate = [],
       eta = ''NA;15/06/2024 09:00:00'', plannedDistance = [], remainingDistance = [],
       tripStatus = [], delayTime = ''01:15:00'', rpsNumber = [] \<rparr>"

definition exampleRoute :: "string \<Rightarrow> string \<Rightarrow> RouteIndexItem" where
  \<comment> \<open>the reference route \<open>R1\<close> of the end-to-end example, side Up, between two given endpoints\<close>
  "exampleRoute src dst =
     \<lparr> r_id = ''R1'', RouteName = [], Route_Side = Some Up, Source = Some src,
       Destination = Some dst, Middle_Stops = None \<rparr>"

definition lacksRoute :: "LiveMergedRow \<Rightarrow> bool" where
  \<comment> \<open>the row is one that \<open>collectUnmatched\<close> does not skip\<close>
  "lacksRoute row = (\<not> truthy (routeId row))"

definition pairKey :: "UnmatchedRoutePair \<Rightarrow> string" where
  \<comment> \<open>the compound key \<open>matchKey|consignerName|consigneeName\<close>, read off an output entry\<close>
  "pairKey p = u_matchKey p @ ''|'' @ u_consignerName p @ ''|'' @ u_consigneeName p"

definition grouped :: "LiveMergedRow \<Rightarrow> bool" where
  \<comment> \<open>the row passes the first test of the loop of \<open>aggregateLiveRoutes\<close>\<close>
  "grouped row = (truthy (routeId row) \<and> truthy (routeSource row) \<and> truthy (routeDestination row))"

definition rowsOf :: "string \<Rightarrow> TripSide \<Rightarrow> LiveMergedRow list \<Rightarrow> LiveMergedRow list" where
  \<comment> \<open>the rows of one route id and one side, in input order\<close>
  "rowsOf rid sd rows =
     filter (\<lambda>row. grouped row \<and> routeId row = Some rid \<and> routeSide row = Some sd) rows"

definition bucketOf ::
  "(string \<Rightarrow> VehicleLatLng option) \<Rightarrow> LiveMergedRow list \<Rightarrow> LiveRouteSideBucket" where
  \<comment> \<open>the bucket that holds one entry for each of the given rows\<close>
  "bucketOf coords rs =
     \<lparr> totalVehicles = length rs,
       lateVehicles = length (filter (\<lambda>row. greaterThanZero (parseDelayToHours (delayTime row))) rs),
       vehicles = map (makeVehicleEntry coords) rs \<rparr>"

definition routeIds :: "LiveMergedRow list \<Rightarrow> string set" where
  \<comment> \<open>the route ids of the rows that pass the first test of the loop\<close>
  "routeIds rows = {rid. \<exists>row \<in> set rows. grouped row \<and> routeId row = Some rid}"

definition aggInv ::
  "(string \<Rightarrow> VehicleLatLng option) \<Rightarrow> LiveMergedRow list \<Rightarrow> string set
     \<Rightarrow> (string \<times> LiveRouteRoute) list \<Rightarrow> bool" where
  \<comment> \<open>the invariant of the loop of \<open>aggregateLiveRoutes\<close> after the rows \<open>rows\<close>: the keys
      of \<open>routeMap\<close> are distinct and form the set \<open>K\<close>, and each entry carries its key as id
      and, in each bucket, the rows of its id and side seen so far\<close>
  "aggInv coords rows K st =
     (distinct (map fst st) \<and> fst ` set st = K \<and>
      (\<forall>(k, r) \<in> set st. lr_id r = k \<and> up r = bucketOf coords (rowsOf k Up rows)
                                      \<and> down r = bucketOf coords (rowsOf k Down rows)))"

definition bucketsOfRoute ::
  "string \<Rightarrow> LiveRouteRoute list \<Rightarrow> LiveRouteSideBucket \<times> LiveRouteSideBucket" where
  \<comment> \<open>the Up and the Down bucket of a route id in a result; two empty buckets when the id
      does not occur\<close>
  "bucketsOfRoute k rs =
     (case find (\<lambda>r. lr_id r = k) rs of
        None \<Rightarrow> (emptyBucket, emptyBucket)
      | Some r \<Rightarrow> (up r, down r))"

definition exampleSidelessRoute :: RouteIndexItem where
  \<comment> \<open>a reference route that declares neither side and that the example shipment matches\<close>
  "exampleSidelessRoute =
     (exampleRoute ''LUCKNOW-11'' ''SAFEXPRESS AMBALA(AML11)'')\<lparr> Route_Side := None \<rparr>"

definition exampleMatched :: "LiveMergedRow list" where
  \<comment> \<open>the example shipment merged with a route of side Up whose endpoints it matches\<close>
  "exampleMatched =
     mergeWithRoutes [exampleShipment]
       (buildRouteIndex [exampleRoute ''LUCKNOW-11'' ''SAFEXPRESS AMBALA(AML11)''])"

definition exampleSideless :: "LiveMergedRow list" where
  \<comment> \<open>the example shipment merged with the route that declares no side\<close>
  "exampleSideless = mergeWithRoutes [exampleShipment] (buildRouteIndex [exampleSidelessRoute])"

definition isDigits :: "string \<Rightarrow> bool" where
  \<comment> \<open>a non-empty string of decimal digits\<close>
  "isDigits s = (s \<noteq> [] \<and> list_all isDigit s)"

definition wellFormedDelay :: "string \<Rightarrow> bool" where
  \<comment> \<open>the reading of \<open>HH:MM:SS\<close> with trailing fields allowed to be missing: at most three
      fields, each a non-empty string of digits\<close>
  "wellFormedDelay d = (let fs = splitOn (CHR '':'') d in length fs \<le> 3 \<and> list_all isDigits fs)"

definition notDigitFirst :: "string \<Rightarrow> bool" where
  \<comment> \<open>the string does not begin with a digit\<close>
  "notDigitFirst rest = (case rest of [] \<Rightarrow> True | c # cs \<Rightarrow> \<not> isDigit c)"

definition colonFree :: "string \<Rightarrow> bool" where
  "colonFree f = (CHR '':'' \<notin> set f)"

fun joinColon :: "string list \<Rightarrow> string" where
  \<comment> \<open>the fields written one after the other with a colon between them\<close>
  "joinColon [] = []"
| "joinColon [f] = f"
| "joinColon (f # g # fs) = f @ '':'' @ joinColon (g # fs)"

definition isAscii :: "string \<Rightarrow> bool" where
  \<comment> \<open>every character is in U+0000 .. U+007F\<close>
  "isAscii s = list_all (\<lambda>c. (of_char c :: int) < 128) s"

definition exampleLocationMaps :: LocationMaps where
  \<comment> \<open>dropdown lists that know the city of the example consigner and the branch code of the
      example consignee\<close>
  "exampleLocationMaps =
     \<lparr> cityByNormName = [''LUCKNOW'' \<mapsto> \<lparr> rawName = ''Lucknow'', loc_lat = 26, loc_lng = 80 \<rparr>],
       landmarkByNormCode = [''AML11'' \<mapsto> \<lparr> rawName = ''Safexpress Ambala (AML11)'', loc_lat = 30, loc_lng = 76 \<rparr>],
       landmarkByNormName = Map.empty \<rparr>"

definition exampleWithRouteCoords :: LiveMergedRow where
  \<comment> \<open>the matched example shipment, with coordinates of the reference route filled in\<close>
  "exampleWithRouteCoords =
     (mergeRow (buildRouteIndex [exampleRoute ''LUCKNOW-11'' ''SAFEXPRESS AMBALA(AML11)'']) exampleShipment)
       \<lparr> routeSourceLat := Some 1, routeSourceLng := Some 2,
         routeDestinationLat := Some 3, routeDestinationLng := Some 4 \<rparr>"

definition exampleLocations :: "LocationRow list" where
  \<comment> \<open>a location table in which the second row has the name \<open>agra\<close> up to case and the
      first row contains it\<close>
  "exampleLocations =
     [\<lparr> name = ''Agra Cantt'', Latitude = 30, Longitude = 76 \<rparr>,
      \<lparr> name = ''AGRA'', Latitude = 31, Longitude = 77 \<rparr>]"

definition blankLocation :: LocationRow where
  \<comment> \<open>a location row whose name is a single space\<close>
  "blankLocation = \<lparr> name = '' '', Latitude = 0, Longitude = 0 \<rparr>"

definition exampleFarLocations :: "LocationRow list" where
  \<comment> \<open>a location table without a row close to \<open>Agra North (A1)\<close>\<close>
  "exampleFarLocations =
     [\<lparr> name = ''Agra South'', Latitude = 28, Longitude = 77 \<rparr>,
      \<lparr> name = ''Pune Hub (P2)'', Latitude = 19, Longitude = 72 \<rparr>]"

section \<open>Rounding to a double\<close>

lemma pow2n_eq: "0 \<le> k \<Longrightarrow> pow2n k = 2 ^ nat k"
proof (induction k rule: pow2n.induct)
  case (1 k)
  show ?case
  proof (cases "k \<le> 0")
    case True
    with "1.prems" show ?thesis by (subst pow2n.simps) simp
  next
    case pos: False
    show ?thesis
    proof (cases "even k")
      case True
      with pos "1.IH"(1) have h: "pow2n (k div 2) = 2 ^ nat (k div 2)"
        by simp
      from True pos have "nat k = nat (k div 2) + nat (k div 2)"
        by (auto elim!: evenE)
      with True pos h show ?thesis
        by (subst pow2n.simps) (simp add: Let_def flip: power_add)
    next
      case False
      with pos "1.IH"(2) have h: "pow2n (k - 1) = 2 ^ nat (k - 1)"
        by simp
      from pos have "nat k = Suc (nat (k - 1))"
        by simp
      with False pos h show ?thesis
        by (subst pow2n.simps) simp
    qed
  qed
qed

lemma pow2_eq: "pow2 k = 2 powi k"
  by (simp add: pow2_def pow2n_eq power_int_def field_simps)

lemma bitLength_nonneg: "0 \<le> bitLength n"
  by (induction n rule: bitLength.induct) (subst bitLength.simps, simp)

lemma bitLength_pos: "0 < n \<Longrightarrow> 0 < bitLength n"
  using bitLength_nonneg [of "n div 2"] by (subst bitLength.simps) simp

lemma bitLength_bounds:
  "0 < n \<Longrightarrow> 2 ^ nat (bitLength n - 1) \<le> n \<and> n < 2 ^ nat (bitLength n)"
proof (induction n rule: bitLength.induct)
  case (1 n)
  show ?case
  proof (cases "n div 2 = 0")
    case True
    with "1.prems" have "n = 1" by presburger
    then show ?thesis
      by (simp add: bitLength.simps [of 1] bitLength.simps [of 0])
  next
    case False
    with "1.prems" have pos: "0 < n div 2" by presburger
    with "1.IH" "1.prems" have ih: "2 ^ nat (bitLength (n div 2) - 1) \<le> n div 2"
        "n div 2 < 2 ^ nat (bitLength (n div 2))"
      by simp_all
    from pos have bl: "0 < bitLength (n div 2)"
      by (rule bitLength_pos)
    have eq: "bitLength n = 1 + bitLength (n div 2)"
      using "1.prems" by (subst bitLength.simps) simp
    from bl have n1: "nat (bitLength n - 1) = Suc (nat (bitLength (n div 2) - 1))"
      and n2: "nat (bitLength n) = Suc (nat (bitLength (n div 2)))"
      unfolding eq by simp_all
    from ih show ?thesis
      unfolding n1 n2 by simp presburger
  qed
qed

lemma bitLength_bounds_rat:
  assumes "0 < n"
  shows "(2 :: rat) powi (bitLength n - 1) \<le> of_int n" and "(of_int n :: rat) < 2 powi bitLength n"
proof -
  from bitLength_pos [OF assms] have n1: "0 \<le> bitLength n - 1" and n2: "0 \<le> bitLength n"
    by simp_all
  from bitLength_bounds [OF assms]
  have "(of_int (2 ^ nat (bitLength n - 1)) :: rat) \<le> of_int n"
    and "(of_int n :: rat) < of_int (2 ^ nat (bitLength n))"
    by (simp_all only: of_int_le_iff of_int_less_iff)
  with n1 n2 show "(2 :: rat) powi (bitLength n - 1) \<le> of_int n"
    and "(of_int n :: rat) < 2 powi bitLength n"
    by (simp_all add: power_int_def)
qed

lemma floorLog2_bounds:
  assumes "0 < a"
  shows "pow2 (floorLog2 a) \<le> a \<and> a < pow2 (floorLog2 a + 1)"
proof -
  obtain p q where pq: "quotient_of a = (p, q)"
    by (cases "quotient_of a")
  then have q: "0 < q" and a: "a = of_int p / of_int q"
    by (simp_all add: quotient_of_denom_pos quotient_of_div)
  from assms a q have p: "0 < p"
    by (simp add: zero_less_divide_iff)
  let ?bp = "bitLength p" and ?bq = "bitLength q"
  let ?d = "?bp - ?bq"
  have two: "(0 :: rat) < 2 powi k" for k
    by simp
  have "a < 2 powi ?bp / 2 powi (?bq - 1)"
    unfolding a using bitLength_bounds_rat [OF p] bitLength_bounds_rat [OF q] p two
    by (intro frac_less) simp_all
  also have "\<dots> = 2 powi (?d + 1)"
    by (simp add: power_int_add power_int_diff)
  finally have up: "a < pow2 (?d + 1)"
    by (simp add: pow2_eq)
  have "2 powi (?bp - 1) / 2 powi ?bq < a"
    unfolding a using bitLength_bounds_rat [OF p] bitLength_bounds_rat [OF q] q two
    by (intro frac_less2) simp_all
  moreover have "2 powi (?bp - 1) / 2 powi ?bq = (2 :: rat) powi (?d - 1)"
    by (simp add: power_int_add power_int_diff)
  ultimately have low: "pow2 (?d - 1) \<le> a"
    by (simp add: pow2_eq)
  show ?thesis
  proof (cases "pow2 ?d \<le> a")
    case True
    with up pq show ?thesis
      by (simp add: floorLog2_def Let_def)
  next
    case False
    with low pq show ?thesis
      by (simp add: floorLog2_def Let_def)
  qed
qed

lemma roundHalfEven_of_int: "roundHalfEven (of_int m) = m"
  by (simp add: roundHalfEven_def)

lemma toDouble_of_int:
  assumes "\<bar>n\<bar> < 2 ^ 53"
  shows "toDouble (of_int n) = Finite (of_int n)"
proof (cases "n = 0")
  case True
  then show ?thesis by (simp add: toDouble_def)
next
  case False
  let ?a = "\<bar>of_int n\<bar> :: rat"
  let ?e = "floorLog2 ?a"
  from False have pos: "0 < ?a" and one: "1 \<le> ?a"
    by (simp_all flip: of_int_abs)
  from assms have lt: "?a < 2 powi 53"
    by (simp flip: of_int_abs add: of_int_less_numeral_power_cancel_iff)
  note b = floorLog2_bounds [OF pos, unfolded pow2_eq]
  have e53: "?e < 53"
  proof (rule ccontr)
    assume "\<not> ?e < 53"
    then have "(2 :: rat) powi 53 \<le> 2 powi ?e"
      by (intro power_int_increasing) simp_all
    with b lt show False
      by simp
  qed
  have e0: "0 \<le> ?e"
  proof (rule ccontr)
    assume "\<not> 0 \<le> ?e"
    then have "(2 :: rat) powi (?e + 1) \<le> 2 powi 0"
      by (intro power_int_increasing) simp_all
    with b one show False
      by simp
  qed
  define k where "k = nat (52 - ?e)"
  have p: "max ?e (- 1022) - 52 = - int k"
    using e0 e53 by (simp add: k_def)
  have pw: "pow2 (- int k) = 1 / 2 ^ k"
    by (cases "k = 0") (simp_all add: pow2_def pow2n_eq)
  have q: "?a / pow2 (- int k) = of_int (\<bar>n\<bar> * 2 ^ k)"
    by (simp add: pw)
  have y: "of_int (roundHalfEven (?a / pow2 (- int k))) * pow2 (- int k) = ?a"
    unfolding q roundHalfEven_of_int by (simp add: pw)
  have "(2 :: rat) powi 53 \<le> 2 powi 1024"
    by (intro power_int_increasing) simp_all
  with lt have "\<not> pow2 1024 \<le> ?a"
    by (simp add: pow2_eq not_le)
  with False show ?thesis
    unfolding toDouble_def Let_def p y by (auto simp flip: of_int_abs)
qed

lemma floorLog2_nonpositive:
  assumes "y \<le> 0"
  shows "floorLog2 y \<le> 0"
proof -
  obtain p q where pq: "quotient_of y = (p, q)"
    by (cases "quotient_of y")
  then have q: "0 < q" and a: "y = of_int p / of_int q"
    by (simp_all add: quotient_of_denom_pos quotient_of_div)
  from assms a q have "p \<le> 0"
    by (simp add: divide_le_0_iff)
  then have "bitLength p = 0"
    by (subst bitLength.simps) simp
  with bitLength_pos [OF q] pq show ?thesis
    by (simp add: floorLog2_def Let_def)
qed

lemma overflow_iff: "(1024 \<le> floorLog2 y) = (pow2 1024 \<le> y)"
proof (cases "0 < y")
  case False
  have "(0 :: rat) < 2 powi 1024"
    by simp
  with False have "\<not> pow2 1024 \<le> y"
    unfolding pow2_eq by linarith
  moreover from False have "floorLog2 y \<le> 0"
    by (intro floorLog2_nonpositive) simp
  ultimately show ?thesis
    by simp
next
  case True
  note b = floorLog2_bounds [OF True, unfolded pow2_eq]
  show ?thesis
  proof
    assume "1024 \<le> floorLog2 y"
    then have "(2 :: rat) powi 1024 \<le> 2 powi floorLog2 y"
      by (intro power_int_increasing) simp_all
    with b show "pow2 1024 \<le> y"
      by (simp add: pow2_eq)
  next
    assume le: "pow2 1024 \<le> y"
    show "1024 \<le> floorLog2 y"
    proof (rule ccontr)
      assume "\<not> 1024 \<le> floorLog2 y"
      then have "(2 :: rat) powi (floorLog2 y + 1) \<le> 2 powi 1024"
        by (intro power_int_increasing) simp_all
      with b le show False
        by (simp add: pow2_eq)
    qed
  qed
qed

text \<open>For evaluation the test for overflow looks at the exponent instead of computing \<open>2 ^ 1024\<close>.\<close>

lemma toDouble_code [code]:
  "toDouble x =
     (if x = 0 then Finite 0
      else let a = \<bar>x\<bar>;
               p = max (floorLog2 a) (- 1022) - 52;
               y = of_int (roundHalfEven (a / pow2 p)) * pow2 p
           in if 1024 \<le> floorLog2 y then (if 0 < x then PosInf else NegInf)
              else Finite (if 0 < x then y else - y))"
  by (simp only: toDouble_def overflow_iff)

section \<open>Unmatched pairs are the first occurrences of their keys\<close>

lemma pairKey_toUnmatchedPair: "pairKey (toUnmatchedPair row) = unmatchedKey row"
  by (simp add: pairKey_def toUnmatchedPair_def unmatchedKey_def)

lemma remdups_snoc:
  "remdups (ys @ [x]) = remdups (filter (\<lambda>y. y \<noteq> x) ys) @ [x]"
  by (induction ys) auto

lemma first_occurrence_Cons:
  "rev (remdups (rev (x # xs))) = x # rev (remdups (rev (filter (\<lambda>y. y \<noteq> x) xs)))"
  by (simp add: remdups_snoc rev_filter)

lemma collectLoop_keys:
  "map pairKey (collectLoop seen rows) =
     rev (remdups (rev (filter (\<lambda>k. k \<notin> seen) (map unmatchedKey (filter lacksRoute rows)))))"
proof (induction rows arbitrary: seen)
  case Nil
  then show ?case by simp
next
  case (Cons row rows)
  show ?case
  proof (cases "truthy (routeId row)")
    case True
    then show ?thesis using Cons.IH [of seen] by (simp add: lacksRoute_def)
  next
    case unm: False
    show ?thesis
    proof (cases "unmatchedKey row \<in> seen")
      case True
      then show ?thesis using unm Cons.IH [of seen] by (simp add: lacksRoute_def)
    next
      case False
      let ?k = "unmatchedKey row"
      let ?KS = "map unmatchedKey (filter lacksRoute rows)"
      have flt: "filter (\<lambda>y. y \<noteq> ?k) (filter (\<lambda>k. k \<notin> seen) ks) =
                 filter (\<lambda>k. k \<notin> insert ?k seen) ks" for ks
        by (induction ks) auto
      have "map pairKey (collectLoop seen (row # rows)) =
            ?k # map pairKey (collectLoop (insert ?k seen) rows)"
        using False unm by (simp add: pairKey_toUnmatchedPair)
      also have "\<dots> = ?k # rev (remdups (rev (filter (\<lambda>k. k \<notin> insert ?k seen) ?KS)))"
        by (simp only: Cons.IH)
      also have "\<dots> = ?k # rev (remdups (rev (filter (\<lambda>y. y \<noteq> ?k) (filter (\<lambda>k. k \<notin> seen) ?KS))))"
        by (simp only: flt)
      also have "\<dots> = rev (remdups (rev (?k # filter (\<lambda>k. k \<notin> seen) ?KS)))"
        by (simp only: first_occurrence_Cons)
      also have "?k # filter (\<lambda>k. k \<notin> seen) ?KS =
                 filter (\<lambda>k. k \<notin> seen) (map unmatchedKey (filter lacksRoute (row # rows)))"
        using False unm by (simp add: lacksRoute_def)
      finally show ?thesis .
    qed
  qed
qed

lemma collectLoop_first:
  "p \<in> set (collectLoop seen rows) \<Longrightarrow>
     pairKey p \<notin> seen \<and>
     (\<exists>r. find (\<lambda>r. lacksRoute r \<and> unmatchedKey r = pairKey p) rows = Some r \<and> p = toUnmatchedPair r)"
proof (induction rows arbitrary: seen)
  case Nil
  then show ?case by simp
next
  case (Cons row rows)
  show ?case
  proof (cases "truthy (routeId row)")
    case True
    then show ?thesis using Cons.prems Cons.IH [of seen] by (simp add: lacksRoute_def)
  next
    case unm: False
    show ?thesis
    proof (cases "unmatchedKey row \<in> seen")
      case True
      with unm Cons.prems have "p \<in> set (collectLoop seen rows)" by simp
      from Cons.IH [OF this] True show ?thesis by auto
    next
      case False
      with unm Cons.prems
      consider "p = toUnmatchedPair row"
        | "p \<in> set (collectLoop (insert (unmatchedKey row) seen) rows)" by auto
      then show ?thesis
      proof cases
        case 1
        with False unm show ?thesis by (simp add: pairKey_toUnmatchedPair lacksRoute_def)
      next
        case 2
        from Cons.IH [OF this] show ?thesis by auto
      qed
    qed
  qed
qed

text \<open>
  C10. In \<open>collectUnmatched merged\<close> the compound keys \<open>matchKey|consignerName|consigneeName\<close>
  of the entries are, in this order, the first occurrences of the keys of the rows without a
  route id (the rows that the loop does not skip: the id is absent or empty). Every such key
  occurs exactly once, however often the row is repeated in the input, and each entry is built
  from the first input row without a route id that has its key. A row with a route id
  contributes nothing.
\<close>

theorem collectUnmatched_first_occurrences:
  "map pairKey (collectUnmatched merged) = rev (remdups (rev (map unmatchedKey (filter lacksRoute merged))))
   \<and> distinct (map pairKey (collectUnmatched merged))
   \<and> set (map pairKey (collectUnmatched merged)) = unmatchedKey ` {r \<in> set merged. lacksRoute r}
   \<and> (\<forall>p \<in> set (collectUnmatched merged).
        \<exists>r. find (\<lambda>r. lacksRoute r \<and> unmatchedKey r = pairKey p) merged = Some r
             \<and> p = toUnmatchedPair r)"
proof -
  have keys: "map pairKey (collectUnmatched merged) =
              rev (remdups (rev (map unmatchedKey (filter lacksRoute merged))))"
    using collectLoop_keys [of "{}" merged] by (simp add: collectUnmatched_def)
  have "distinct (map pairKey (collectUnmatched merged))"
    unfolding keys by simp
  moreover have "set (map pairKey (collectUnmatched merged)) = unmatchedKey ` {r \<in> set merged. lacksRoute r}"
    unfolding keys by auto
  moreover have "\<forall>p \<in> set (collectUnmatched merged).
        \<exists>r. find (\<lambda>r. lacksRoute r \<and> unmatchedKey r = pairKey p) merged = Some r
             \<and> p = toUnmatchedPair r"
    using collectLoop_first [of _ "{}" merged] by (simp add: collectUnmatched_def)
  ultimately show ?thesis using keys by blast
qed

theorem collectUnmatched_first_occurrences_witness:
  "collectUnmatched (mergeWithRoutes [exampleShipment, exampleShipment] (\<lambda>k. None)) =
     [toUnmatchedPair (mergeRow (\<lambda>k. None) exampleShipment)]
   \<and> map pairKey (collectUnmatched (mergeWithRoutes [exampleShipment, exampleShipment] (\<lambda>k. None))) =
       [''lucknow-11___safexpressambala(aml11)|LUCKNOW-11|SAFEXPRESS AMBALA(AML11)'']"
proof -
  let ?m = "mergeWithRoutes [exampleShipment, exampleShipment] (\<lambda>k. None)"
  have rows: "?m = [mergeRow (\<lambda>k. None) exampleShipment, mergeRow (\<lambda>k. None) exampleShipment]"
    by (simp add: mergeWithRoutes_def)
  have lacks: "lacksRoute (mergeRow (\<lambda>k. None) exampleShipment)"
    by (simp add: lacksRoute_def mergeRow_def truthy_def Let_def LiveMergedRow.defs ParsedRow.defs)
  have key: "unmatchedKey (mergeRow (\<lambda>k. None) exampleShipment) =
             ''lucknow-11___safexpressambala(aml11)|LUCKNOW-11|SAFEXPRESS AMBALA(AML11)''"
    by code_simp
  have keys: "map pairKey (collectUnmatched ?m) =
              [''lucknow-11___safexpressambala(aml11)|LUCKNOW-11|SAFEXPRESS AMBALA(AML11)'']"
    using collectUnmatched_first_occurrences [of ?m] by (simp add: rows lacks key)
  have "collectUnmatched ?m = [toUnmatchedPair (mergeRow (\<lambda>k. None) exampleShipment)]"
    using lacks by (simp add: rows collectUnmatched_def lacksRoute_def)
  with keys show ?thesis by simp
qed

section \<open>What the aggregation loop computes\<close>

lemma aggStep_not_grouped: "\<not> grouped row \<Longrightarrow> aggStep coords st row = st"
  by (auto simp: aggStep_def grouped_def)

lemma aggStep_grouped:
  assumes "grouped row" and "routeId row = Some rid"
  shows "\<exists>src dst. aggStep coords st row =
     (let st1 = (case map_of st rid of None \<Rightarrow> st @ [(rid, newRoute rid src dst row)] | Some b \<Rightarrow> st)
      in case routeSide row of
           None \<Rightarrow> st1
         | Some sd \<Rightarrow> modifyRoute rid
             (\<lambda>r. backfillCoords row (addToSide sd (makeVehicleEntry coords row) r)) st1)"
  using assms by (auto simp: aggStep_def grouped_def truthy_def split: option.splits)

lemma rowsOf_snoc:
  "rowsOf k sd (rows @ [row]) =
     (if grouped row \<and> routeId row = Some k \<and> routeSide row = Some sd
      then rowsOf k sd rows @ [row] else rowsOf k sd rows)"
  by (simp add: rowsOf_def)

lemma routeIds_snoc:
  "routeIds (rows @ [row]) =
     (if grouped row then (case routeId row of Some rid \<Rightarrow> insert rid (routeIds rows) | None \<Rightarrow> routeIds rows)
      else routeIds rows)"
  by (auto simp: routeIds_def split: option.splits)

lemma rowsOf_empty: "k \<notin> routeIds rows \<Longrightarrow> rowsOf k sd rows = []"
  by (auto simp: routeIds_def rowsOf_def filter_empty_conv)

lemma bucketOf_Nil: "bucketOf coords [] = emptyBucket"
  by (simp add: bucketOf_def emptyBucket_def)

lemma bucketOf_snoc:
  "bucketOf coords (rs @ [row]) = pushVehicle (makeVehicleEntry coords row) (bucketOf coords rs)"
  by (simp add: bucketOf_def pushVehicle_def makeVehicleEntry_def Let_def)

lemma backfillCoords_keeps:
  "lr_id (backfillCoords row r) = lr_id r \<and> up (backfillCoords row r) = up r
   \<and> down (backfillCoords row r) = down r"
  by (simp add: backfillCoords_def Let_def)

lemma addToSide_fields:
  "lr_id (addToSide sd e r) = lr_id r
   \<and> up (addToSide sd e r) = (if sd = Up then pushVehicle e (up r) else up r)
   \<and> down (addToSide sd e r) = (if sd = Down then pushVehicle e (down r) else down r)"
  by (cases sd) (simp_all add: addToSide_def)

lemma aggInv_insert:
  assumes "aggInv coords rows (routeIds rows) st"
  shows "aggInv coords rows (insert rid (routeIds rows))
           (case map_of st rid of None \<Rightarrow> st @ [(rid, newRoute rid src dst row)] | Some b \<Rightarrow> st)"
proof (cases "map_of st rid")
  case None
  then have notin: "rid \<notin> fst ` set st"
    by (simp add: map_of_eq_None_iff)
  with assms have "rid \<notin> routeIds rows"
    by (simp add: aggInv_def)
  then have "rowsOf rid sd rows = []" for sd
    by (rule rowsOf_empty)
  with assms notin None show ?thesis
    by (auto simp: aggInv_def newRoute_def bucketOf_Nil)
next
  case (Some b)
  then have "rid \<in> fst ` set st"
    by (metis map_of_eq_None_iff option.distinct(1))
  with assms Some show ?thesis
    by (auto simp: aggInv_def insert_absorb)
qed

lemma aggInv_sideless:
  assumes "aggInv coords rows K st" and "routeSide row = None"
  shows "aggInv coords (rows @ [row]) K st"
  using assms by (auto simp: aggInv_def rowsOf_snoc)

lemma aggInv_modify:
  assumes inv: "aggInv coords rows K st"
      and row: "grouped row" "routeId row = Some rid" "routeSide row = Some sd"
  shows "aggInv coords (rows @ [row]) K
           (modifyRoute rid (\<lambda>r. backfillCoords row (addToSide sd (makeVehicleEntry coords row) r)) st)"
proof -
  let ?f = "\<lambda>r. backfillCoords row (addToSide sd (makeVehicleEntry coords row) r)"
  have keys: "map fst (modifyRoute rid ?f st) = map fst st"
    by (induction st) (auto simp: modifyRoute_def)
  have "lr_id r' = k \<and> up r' = bucketOf coords (rowsOf k Up (rows @ [row]))
        \<and> down r' = bucketOf coords (rowsOf k Down (rows @ [row]))"
    if "(k, r') \<in> set (modifyRoute rid ?f st)" for k r'
  proof -
    from that obtain r where r: "(k, r) \<in> set st" and r': "r' = (if k = rid then ?f r else r)"
      by (auto simp: modifyRoute_def split: if_splits)
    from inv r have old: "lr_id r = k" "up r = bucketOf coords (rowsOf k Up rows)"
        "down r = bucketOf coords (rowsOf k Down rows)"
      by (auto simp: aggInv_def)
    show ?thesis
    proof (cases "k = rid")
      case True
      with r' old row show ?thesis
        by (cases sd) (simp_all add: backfillCoords_keeps addToSide_fields rowsOf_snoc bucketOf_snoc)
    next
      case False
      with r' old row show ?thesis
        by (simp add: rowsOf_snoc)
    qed
  qed
  moreover have "distinct (map fst (modifyRoute rid ?f st))" "fst ` set (modifyRoute rid ?f st) = K"
    using inv keys by (simp_all add: aggInv_def flip: set_map)
  ultimately show ?thesis
    by (auto simp: aggInv_def)
qed

lemma aggInv_step:
  assumes "aggInv coords rows (routeIds rows) st"
  shows "aggInv coords (rows @ [row]) (routeIds (rows @ [row])) (aggStep coords st row)"
proof (cases "grouped row")
  case False
  with assms show ?thesis
    by (auto simp: aggStep_not_grouped routeIds_snoc aggInv_def rowsOf_snoc)
next
  case True
  then obtain rid where rid: "routeId row = Some rid"
    by (auto simp: grouped_def truthy_def split: option.splits)
  from aggStep_grouped [OF True rid] obtain src dst where
    step: "aggStep coords st row =
     (let st1 = (case map_of st rid of None \<Rightarrow> st @ [(rid, newRoute rid src dst row)] | Some b \<Rightarrow> st)
      in case routeSide row of
           None \<Rightarrow> st1
         | Some sd \<Rightarrow> modifyRoute rid
             (\<lambda>r. backfillCoords row (addToSide sd (makeVehicleEntry coords row) r)) st1)"
    by blast
  have ids: "routeIds (rows @ [row]) = insert rid (routeIds rows)"
    using True rid by (simp add: routeIds_snoc)
  note st1 = aggInv_insert [OF assms, of rid src dst row]
  show ?thesis
  proof (cases "routeSide row")
    case None
    with step ids aggInv_sideless [OF st1 None] show ?thesis
      by (simp add: Let_def)
  next
    case (Some sd)
    with step ids aggInv_modify [OF st1 True rid Some] show ?thesis
      by (simp add: Let_def)
  qed
qed

lemma aggInv_foldl:
  "aggInv coords rows (routeIds rows) (foldl (aggStep coords) [] rows)"
proof (induction rows rule: rev_induct)
  case Nil
  show ?case by (simp add: aggInv_def routeIds_def)
next
  case (snoc row rows)
  then show ?case by (simp add: aggInv_step)
qed

lemma aggregate_entry:
  assumes "r \<in> set (aggregateLiveRoutes merged coords)"
  shows "lr_id r \<in> routeIds merged
         \<and> up r = bucketOf coords (rowsOf (lr_id r) Up merged)
         \<and> down r = bucketOf coords (rowsOf (lr_id r) Down merged)"
proof -
  let ?st = "foldl (aggStep coords) [] merged"
  from assms obtain k where kr: "(k, r) \<in> set ?st"
    by (auto simp: aggregateLiveRoutes_def)
  have inv: "aggInv coords merged (routeIds merged) ?st"
    by (rule aggInv_foldl)
  then have all: "\<forall>(k, r) \<in> set ?st. lr_id r = k \<and> up r = bucketOf coords (rowsOf k Up merged)
                                      \<and> down r = bucketOf coords (rowsOf k Down merged)"
    and keys: "fst ` set ?st = routeIds merged"
    by (simp_all add: aggInv_def)
  from all kr have "lr_id r = k \<and> up r = bucketOf coords (rowsOf k Up merged)
                    \<and> down r = bucketOf coords (rowsOf k Down merged)"
    by blast
  moreover from kr have "k \<in> fst ` set ?st"
    by force
  ultimately show ?thesis
    using keys by simp
qed

lemma aggregate_ids:
  "lr_id ` set (aggregateLiveRoutes merged coords) = routeIds merged"
proof -
  let ?st = "foldl (aggStep coords) [] merged"
  have inv: "aggInv coords merged (routeIds merged) ?st"
    by (rule aggInv_foldl)
  have "lr_id (snd p) = fst p" if "p \<in> set ?st" for p
    using that inv by (cases p) (auto simp: aggInv_def)
  then have "map (lr_id \<circ> snd) ?st = map fst ?st"
    by simp
  then have "set (map lr_id (map snd ?st)) = set (map fst ?st)"
    by simp
  moreover have "set (map fst ?st) = routeIds merged"
    using inv by (simp add: aggInv_def)
  ultimately show ?thesis
    by (simp add: aggregateLiveRoutes_def image_image)
qed

lemma find_Some_holds: "find P xs = Some x \<Longrightarrow> x \<in> set xs \<and> P x"
  by (induction xs) (auto split: if_splits)

lemma aggregate_buckets:
  "bucketsOfRoute k (aggregateLiveRoutes merged coords) =
     (bucketOf coords (rowsOf k Up merged), bucketOf coords (rowsOf k Down merged))"
proof (cases "find (\<lambda>r. lr_id r = k) (aggregateLiveRoutes merged coords)")
  case None
  then have "k \<notin> lr_id ` set (aggregateLiveRoutes merged coords)"
    unfolding find_None_iff by blast
  then have "k \<notin> routeIds merged"
    by (simp add: aggregate_ids)
  then have "rowsOf k sd merged = []" for sd
    by (rule rowsOf_empty)
  with None show ?thesis
    by (simp add: bucketsOfRoute_def bucketOf_Nil)
next
  case (Some r)
  from find_Some_holds [OF Some]
  have "r \<in> set (aggregateLiveRoutes merged coords)" and k: "lr_id r = k"
    by simp_all
  from aggregate_entry [OF this(1)] k
  have "up r = bucketOf coords (rowsOf k Up merged)" "down r = bucketOf coords (rowsOf k Down merged)"
    by simp_all
  with Some show ?thesis
    by (simp add: bucketsOfRoute_def)
qed

section \<open>Properties of the aggregation\<close>

lemma lateHours_makeVehicleEntry:
  "lateHours (makeVehicleEntry coords row) = parseDelayToHours (delayTime row)"
  by (simp add: makeVehicleEntry_def Let_def)

lemma bucketOf_counts:
  "lateVehicles (bucketOf coords rs) \<le> totalVehicles (bucketOf coords rs)
   \<and> lateVehicles (bucketOf coords rs) =
       length (filter (\<lambda>v. greaterThanZero (lateHours v)) (vehicles (bucketOf coords rs)))"
  by (simp add: bucketOf_def filter_map comp_def lateHours_makeVehicleEntry)

text \<open>
  C6. Whatever the merged rows and the vehicle coordinates are, in every bucket (Up and Down)
  of every route returned by \<open>aggregateLiveRoutes\<close> the count \<open>lateVehicles\<close> is at most
  \<open>totalVehicles\<close>, and it is the number of entries of the bucket whose \<open>lateHours\<close> is
  strictly positive.
\<close>

theorem aggregate_late_le_total:
  "\<forall>r \<in> set (aggregateLiveRoutes merged coords). \<forall>b \<in> {up r, down r}.
     lateVehicles b \<le> totalVehicles b
     \<and> lateVehicles b = length (filter (\<lambda>v. greaterThanZero (lateHours v)) (vehicles b))"
proof (intro ballI)
  fix r b
  assume "r \<in> set (aggregateLiveRoutes merged coords)" and b: "b \<in> {up r, down r}"
  from aggregate_entry [OF this(1)] b
  obtain rs where "b = bucketOf coords rs"
    by auto
  then show "lateVehicles b \<le> totalVehicles b
     \<and> lateVehicles b = length (filter (\<lambda>v. greaterThanZero (lateHours v)) (vehicles b))"
    using bucketOf_counts [of coords rs] by simp
qed

theorem aggregate_late_le_total_witness:
  "aggregateLiveRoutes exampleMatched Map.empty \<noteq> []
   \<and> totalVehicles (up (hd (aggregateLiveRoutes exampleMatched Map.empty))) = 1
   \<and> lateVehicles (up (hd (aggregateLiveRoutes exampleMatched Map.empty)))
        \<le> totalVehicles (up (hd (aggregateLiveRoutes exampleMatched Map.empty)))
   \<and> lateVehicles (up (hd (aggregateLiveRoutes exampleMatched Map.empty))) =
        length (filter (\<lambda>v. greaterThanZero (lateHours v))
                  (vehicles (up (hd (aggregateLiveRoutes exampleMatched Map.empty)))))"
proof -
  let ?rs = "aggregateLiveRoutes exampleMatched Map.empty"
  have ne: "?rs \<noteq> []" and one: "totalVehicles (up (hd ?rs)) = 1"
    by code_simp+
  from ne have "hd ?rs \<in> set ?rs"
    by simp
  with aggregate_late_le_total [of exampleMatched Map.empty]
  have "lateVehicles (up (hd ?rs)) \<le> totalVehicles (up (hd ?rs))
        \<and> lateVehicles (up (hd ?rs)) =
            length (filter (\<lambda>v. greaterThanZero (lateHours v)) (vehicles (up (hd ?rs))))"
    by blast
  with ne one show ?thesis
    by blast
qed

text \<open>
  C7. A row whose route side is neither Up nor Down contributes to no bucket: wherever it
  stands in the input, the Up and Down buckets of every route id (entries, \<open>totalVehicles\<close>
  and \<open>lateVehicles\<close>) are the same with the row as without it.
\<close>

theorem sideless_row_contributes_nothing:
  assumes "routeSide row = None"
  shows "bucketsOfRoute k (aggregateLiveRoutes (xs @ row # ys) coords) =
         bucketsOfRoute k (aggregateLiveRoutes (xs @ ys) coords)"
proof -
  from assms have "rowsOf k sd (xs @ row # ys) = rowsOf k sd (xs @ ys)" for sd
    by (simp add: rowsOf_def)
  then show ?thesis
    by (simp only: aggregate_buckets)
qed

theorem sideless_row_contributes_nothing_witness:
  "routeSide (hd exampleSideless) = None
   \<and> bucketsOfRoute ''R1'' (aggregateLiveRoutes (exampleMatched @ hd exampleSideless # []) Map.empty) =
     bucketsOfRoute ''R1'' (aggregateLiveRoutes (exampleMatched @ []) Map.empty)
   \<and> totalVehicles (fst (bucketsOfRoute ''R1'' (aggregateLiveRoutes (exampleMatched @ []) Map.empty))) = 1"
proof -
  have side: "routeSide (hd exampleSideless) = None"
    by code_simp
  have "totalVehicles (fst (bucketsOfRoute ''R1'' (aggregateLiveRoutes (exampleMatched @ []) Map.empty))) = 1"
    by code_simp
  with side sideless_row_contributes_nothing [OF side, of "''R1''" exampleMatched "[]" Map.empty]
  show ?thesis by simp
qed

lemma rowsOf_nonempty:
  "rowsOf k sd rows \<noteq> [] \<longleftrightarrow>
     (\<exists>row \<in> set rows. grouped row \<and> routeId row = Some k \<and> routeSide row = Some sd)"
  by (auto simp: rowsOf_def filter_empty_conv)

lemma aggregate_distinct_ids: "distinct (map lr_id (aggregateLiveRoutes merged coords))"
proof -
  let ?st = "foldl (aggStep coords) [] merged"
  have inv: "aggInv coords merged (routeIds merged) ?st"
    by (rule aggInv_foldl)
  have "lr_id (snd p) = fst p" if "p \<in> set ?st" for p
    using that inv by (cases p) (auto simp: aggInv_def)
  then have eq: "map lr_id (map snd ?st) = map fst ?st"
    by simp
  from inv have "distinct (map fst ?st)"
    by (simp add: aggInv_def)
  then show ?thesis
    by (simp only: aggregateLiveRoutes_def eq)
qed

lemma aggregate_sideless_route:
  assumes row: "row \<in> set merged" "grouped row"
      and all: "\<forall>other \<in> set merged. grouped other \<and> routeId other = routeId row \<longrightarrow> routeSide other = None"
  shows "\<exists>r \<in> set (aggregateLiveRoutes merged coords).
           routeId row = Some (lr_id r) \<and> up r = emptyBucket \<and> down r = emptyBucket"
proof -
  from row(2) obtain rid where rid: "routeId row = Some rid"
    by (auto simp: grouped_def truthy_def split: option.splits)
  with row have "rid \<in> routeIds merged"
    by (auto simp: routeIds_def)
  then obtain r where r: "r \<in> set (aggregateLiveRoutes merged coords)" "lr_id r = rid"
    unfolding aggregate_ids [of merged coords, symmetric] by blast
  from all rid have "rowsOf rid sd merged = []" for sd
    by (auto simp: rowsOf_def filter_empty_conv)
  with aggregate_entry [OF r(1)] r(2) have "up r = emptyBucket" "down r = emptyBucket"
    by (simp_all add: bucketOf_Nil)
  with r rid show ?thesis
    by blast
qed

text \<open>
  C2, amended. \<open>aggregateLiveRoutes\<close> returns exactly one route for each route id carried by
  an input row with a non-empty route id, route source and route destination, whatever the
  sides of these rows. A returned route has an entry in its Up or its Down bucket exactly when
  one of the rows of its id has a side; so a route id all of whose rows are without a side is
  returned with both buckets empty.
\<close>

theorem aggregate_nonempty_iff_sided_row:
  "distinct (map lr_id (aggregateLiveRoutes merged coords))
   \<and> lr_id ` set (aggregateLiveRoutes merged coords) =
       {rid. \<exists>row \<in> set merged. grouped row \<and> routeId row = Some rid}
   \<and> (\<forall>r \<in> set (aggregateLiveRoutes merged coords).
        (\<exists>row \<in> set merged. grouped row \<and> routeId row = Some (lr_id r))
        \<and> ((vehicles (up r) \<noteq> [] \<or> vehicles (down r) \<noteq> []) \<longleftrightarrow>
             (\<exists>row \<in> set merged. grouped row \<and> routeId row = Some (lr_id r) \<and> routeSide row \<noteq> None)))
   \<and> (\<forall>row \<in> set merged.
        grouped row
        \<and> (\<forall>other \<in> set merged. grouped other \<and> routeId other = routeId row \<longrightarrow> routeSide other = None)
        \<longrightarrow> (\<exists>r \<in> set (aggregateLiveRoutes merged coords).
               routeId row = Some (lr_id r) \<and> up r = emptyBucket \<and> down r = emptyBucket))"
proof (intro conjI ballI impI)
  show "distinct (map lr_id (aggregateLiveRoutes merged coords))"
    by (rule aggregate_distinct_ids)
  show "lr_id ` set (aggregateLiveRoutes merged coords) =
          {rid. \<exists>row \<in> set merged. grouped row \<and> routeId row = Some rid}"
    by (simp add: aggregate_ids routeIds_def)
next
  fix r
  assume "r \<in> set (aggregateLiveRoutes merged coords)"
  from aggregate_entry [OF this]
  have ids: "lr_id r \<in> routeIds merged"
    and u: "vehicles (up r) = map (makeVehicleEntry coords) (rowsOf (lr_id r) Up merged)"
    and d: "vehicles (down r) = map (makeVehicleEntry coords) (rowsOf (lr_id r) Down merged)"
    by (simp_all add: bucketOf_def)
  from ids show "\<exists>row \<in> set merged. grouped row \<and> routeId row = Some (lr_id r)"
    by (simp add: routeIds_def)
  have sides: "s \<noteq> None \<longleftrightarrow> s = Some Up \<or> s = Some Down" for s :: "TripSide option"
    by (cases s) (auto intro: TripSide.exhaust)
  show "(vehicles (up r) \<noteq> [] \<or> vehicles (down r) \<noteq> []) \<longleftrightarrow>
        (\<exists>row \<in> set merged. grouped row \<and> routeId row = Some (lr_id r) \<and> routeSide row \<noteq> None)"
    unfolding u d sides by (simp add: rowsOf_nonempty) blast
next
  fix row
  assume "row \<in> set merged"
    and "grouped row
       \<and> (\<forall>other \<in> set merged. grouped other \<and> routeId other = routeId row \<longrightarrow> routeSide other = None)"
  then show "\<exists>r \<in> set (aggregateLiveRoutes merged coords).
               routeId row = Some (lr_id r) \<and> up r = emptyBucket \<and> down r = emptyBucket"
    by (intro aggregate_sideless_route) simp_all
qed

text \<open>
  C2, as stated, fails: the route entry is created before the side is looked at, so a shipment
  matched to a route without a side yields a route whose two buckets are empty.
\<close>

theorem aggregate_empty_buckets_counterexample:
  "aggregateLiveRoutes exampleSideless Map.empty =
     [\<lparr> lr_id = ''R1'', source = ''LUCKNOW-11'', destination = ''SAFEXPRESS AMBALA(AML11)'',
        sourceLat = None, sourceLng = None, destLat = None, destLng = None,
        up = \<lparr> totalVehicles = 0, lateVehicles = 0, vehicles = [] \<rparr>,
        down = \<lparr> totalVehicles = 0, lateVehicles = 0, vehicles = [] \<rparr> \<rparr>]"
  by code_simp

theorem aggregate_nonempty_iff_sided_row_witness:
  "aggregateLiveRoutes exampleMatched Map.empty \<noteq> []
   \<and> vehicles (up (hd (aggregateLiveRoutes exampleMatched Map.empty))) \<noteq> []
   \<and> (\<exists>row \<in> set exampleMatched.
         grouped row \<and> routeId row = Some (lr_id (hd (aggregateLiveRoutes exampleMatched Map.empty)))
         \<and> routeSide row \<noteq> None)
   \<and> grouped (hd exampleSideless) \<and> routeSide (hd exampleSideless) = None
   \<and> (\<exists>r \<in> set (aggregateLiveRoutes exampleSideless Map.empty).
         routeId (hd exampleSideless) = Some (lr_id r) \<and> up r = emptyBucket \<and> down r = emptyBucket)"
proof -
  let ?rs = "aggregateLiveRoutes exampleMatched Map.empty"
  have ne: "?rs \<noteq> []" and veh: "vehicles (up (hd ?rs)) \<noteq> []"
    by code_simp+
  from ne have "hd ?rs \<in> set ?rs"
    by simp
  with aggregate_nonempty_iff_sided_row [of exampleMatched Map.empty] veh
  have sided: "\<exists>row \<in> set exampleMatched.
          grouped row \<and> routeId row = Some (lr_id (hd ?rs)) \<and> routeSide row \<noteq> None"
    by blast
  have one: "exampleSideless = [hd exampleSideless]"
    by (simp add: exampleSideless_def mergeWithRoutes_def)
  have g: "grouped (hd exampleSideless)" and n: "routeSide (hd exampleSideless) = None"
    by code_simp+
  from one have mem: "hd exampleSideless \<in> set exampleSideless"
    by (metis list.set_intros(1))
  from one n have "\<forall>other \<in> set exampleSideless.
      grouped other \<and> routeId other = routeId (hd exampleSideless) \<longrightarrow> routeSide other = None"
    by (metis empty_iff empty_set set_ConsD)
  with aggregate_nonempty_iff_sided_row [of exampleSideless Map.empty] mem g
  have "\<exists>r \<in> set (aggregateLiveRoutes exampleSideless Map.empty).
         routeId (hd exampleSideless) = Some (lr_id r) \<and> up r = emptyBucket \<and> down r = emptyBucket"
    by blast
  with ne veh sided g n show ?thesis
    by blast
qed

text \<open>
  C1, as stated, fails: the key of the shipment is built from the whole first part of the
  consigner and the whole last part of the consignee, so it is not the key of the route
  \<open>LUCKNOW\<close> to \<open>AMBALA(AML11)\<close>, and no route is returned.
\<close>

theorem end_to_end_example_counterexample:
  "aggregateLiveRoutes
     (mergeWithRoutes [exampleShipment] (buildRouteIndex [exampleRoute ''LUCKNOW'' ''AMBALA(AML11)'']))
     Map.empty = []"
  by code_simp

text \<open>
  C1, amended. For the route and the shipment of the example the merged row has no route id
  and the aggregation returns nothing. When the endpoints of the route are
  \<open>LUCKNOW-11\<close> and \<open>SAFEXPRESS AMBALA(AML11)\<close>, the pipeline returns exactly one route, of
  id \<open>R1\<close>, whose Up bucket has \<open>totalVehicles = 1\<close>, \<open>lateVehicles = 1\<close> and one entry with
  \<open>lateHours = 1.25\<close> and \<open>expectedArrival = 15/06/2024 09:00:00\<close>.
\<close>

theorem end_to_end_example:
  "map matchKey (mergeWithRoutes [exampleShipment] (buildRouteIndex [exampleRoute ''LUCKNOW'' ''AMBALA(AML11)'']))
     = [''lucknow-11___safexpressambala(aml11)'']
   \<and> makeRouteKey ''LUCKNOW'' ''AMBALA(AML11)'' = ''lucknow___ambala(aml11)''
   \<and> map routeId (mergeWithRoutes [exampleShipment] (buildRouteIndex [exampleRoute ''LUCKNOW'' ''AMBALA(AML11)'']))
     = [None]
   \<and> aggregateLiveRoutes
       (mergeWithRoutes [exampleShipment] (buildRouteIndex [exampleRoute ''LUCKNOW'' ''AMBALA(AML11)'']))
       Map.empty = []
   \<and> aggregateLiveRoutes
       (mergeWithRoutes [exampleShipment]
          (buildRouteIndex [exampleRoute ''LUCKNOW-11'' ''SAFEXPRESS AMBALA(AML11)'']))
       Map.empty =
       [\<lparr> lr_id = ''R1'', source = ''LUCKNOW-11'', destination = ''SAFEXPRESS AMBALA(AML11)'',
          sourceLat = None, sourceLng = None, destLat = None, destLng = None,
          up = \<lparr> totalVehicles = 1, lateVehicles = 1,
                 vehicles = [\<lparr> e_vehicleNumber = [], e_rpsNumber = None, e_dispatchDate = [],
                               e_lastLocationDate = [], e_lastLocation = [], lateHours = Finite (5 / 4),
                               middleStops = [], expectedArrival = ''15/06/2024 09:00:00'',
                               e_lat = None, e_lng = None \<rparr>] \<rparr>,
          down = \<lparr> totalVehicles = 0, lateVehicles = 0, vehicles = [] \<rparr> \<rparr>]"
  by code_simp

section \<open>Parsing the delay\<close>

lemma splitOn_nonempty: "splitOn d s \<noteq> []"
  by (induction s) (auto split: list.splits)

lemma splitOn_no_separator: "d \<notin> set s \<Longrightarrow> splitOn d s = [s]"
  by (induction s) auto

lemma splitOn_at_separator: "d \<notin> set a \<Longrightarrow> splitOn d (a @ d # b) = a # splitOn d b"
  by (induction a) auto

lemma splitOn_joinColon:
  "fs \<noteq> [] \<Longrightarrow> list_all colonFree fs \<Longrightarrow> splitOn (CHR '':'') (joinColon fs) = fs"
  by (induction fs rule: joinColon.induct)
     (simp_all add: colonFree_def splitOn_no_separator splitOn_at_separator)

lemma joinColon_splitOn: "joinColon (splitOn (CHR '':'') d) = d"
proof (induction d)
  case Nil
  show ?case by simp
next
  case (Cons c d)
  obtain p ps where ps: "splitOn (CHR '':'') d = p # ps"
    using splitOn_nonempty [of "CHR '':''" d] by (cases "splitOn (CHR '':'') d") auto
  with Cons show ?case
    by (cases ps) auto
qed

lemma colonFree_splitOn: "list_all colonFree (splitOn (CHR '':'') d)"
  by (induction d) (auto simp: colonFree_def split: list.splits)

lemma isDigit_chars:
  assumes "isDigit c"
  shows "c \<noteq> CHR '':''" and "c \<noteq> CHR ''+''" and "c \<noteq> CHR ''-''" and "\<not> isSpace c"
  using assms by (auto simp: isDigit_def isSpace_def Let_def)

lemma sign_not_space: "\<not> isSpace (CHR ''+'')" "\<not> isSpace (CHR ''-'')"
  by (simp_all add: isSpace_def)

lemma dropWhile_blank_prefix:
  "list_all isSpace w \<Longrightarrow> dropWhile isSpace (w @ x) = dropWhile isSpace x"
  by (induction w) simp_all

lemma takeWhile_digits:
  "isDigits ds \<Longrightarrow> notDigitFirst rest \<Longrightarrow> takeWhile isDigit (ds @ rest) = ds"
  by (cases rest) (auto simp: isDigits_def notDigitFirst_def list_all_iff takeWhile_tail)

lemma toDouble_not_NaN: "toDouble x \<noteq> NaN"
  by (simp add: toDouble_def Let_def)

lemma parseInt10_unsigned:
  assumes "list_all isSpace w" and "isDigits ds" and "notDigitFirst rest"
  shows "parseInt10 (w @ ds @ rest) = toDouble (of_int (digitsValue ds))"
proof -
  from assms(2) obtain c cs where ds: "ds = c # cs" and c: "isDigit c"
    by (cases ds) (auto simp: isDigits_def)
  have t: "dropWhile isSpace (w @ ds @ rest) = ds @ rest"
    using assms(1) c by (simp add: dropWhile_blank_prefix ds isDigit_chars)
  have tw: "takeWhile isDigit (c # cs @ rest) = c # cs"
    using takeWhile_digits [OF assms(2,3)] by (simp add: ds)
  show ?thesis
    unfolding parseInt10_def t Let_def using c by (simp add: ds isDigit_chars tw del: takeWhile.simps)
qed

lemma parseInt10_signed:
  assumes "list_all isSpace w" and "isDigits ds" and "notDigitFirst rest"
  shows "parseInt10 (w @ ''+'' @ ds @ rest) = toDouble (of_int (digitsValue ds))"
    and "parseInt10 (w @ ''-'' @ ds @ rest) = toDouble (- of_int (digitsValue ds))"
proof -
  from assms(2) have ne: "ds \<noteq> []"
    by (simp add: isDigits_def)
  have t: "dropWhile isSpace (w @ s # ds @ rest) = s # ds @ rest" if "\<not> isSpace s" for s
    using assms(1) that by (simp add: dropWhile_blank_prefix)
  note tw = takeWhile_digits [OF assms(2,3)]
  show "parseInt10 (w @ ''+'' @ ds @ rest) = toDouble (of_int (digitsValue ds))"
    unfolding parseInt10_def Let_def using ne by (simp add: t sign_not_space tw)
  show "parseInt10 (w @ ''-'' @ ds @ rest) = toDouble (- of_int (digitsValue ds))"
    unfolding parseInt10_def Let_def using ne by (simp add: t sign_not_space tw)
qed

lemma parseInt10_NaN_iff:
  "parseInt10 f = NaN \<longleftrightarrow>
     takeWhile isDigit
       (case dropWhile isSpace f of
          c # cs \<Rightarrow> if c = CHR ''+'' \<or> c = CHR ''-'' then cs else dropWhile isSpace f
        | [] \<Rightarrow> []) = []"
  unfolding parseInt10_def Let_def by (auto simp: toDouble_not_NaN)

lemma sign_split:
  fixes t :: string
  assumes "takeWhile isDigit (case t of c # cs \<Rightarrow> if c = CHR ''+'' \<or> c = CHR ''-'' then cs else t | [] \<Rightarrow> []) \<noteq> []"
  shows "\<exists>sg u. t = sg @ u \<and> (sg = [] \<or> sg = ''+'' \<or> sg = ''-'') \<and> takeWhile isDigit u \<noteq> []"
proof (cases t)
  case Nil
  with assms show ?thesis by simp
next
  case (Cons c cs)
  show ?thesis
  proof (cases "c = CHR ''+'' \<or> c = CHR ''-''")
    case True
    with assms Cons have "takeWhile isDigit cs \<noteq> []"
      by simp
    with True Cons have "t = [c] @ cs \<and> ([c] = [] \<or> [c] = ''+'' \<or> [c] = ''-'') \<and> takeWhile isDigit cs \<noteq> []"
      by auto
    then show ?thesis by blast
  next
    case False
    with assms Cons have "t = [] @ t \<and> takeWhile isDigit t \<noteq> []"
      by simp
    then show ?thesis by blast
  qed
qed

lemma digits_split:
  assumes "takeWhile isDigit u \<noteq> []"
  shows "\<exists>ds rest. u = ds @ rest \<and> isDigits ds \<and> notDigitFirst rest"
proof -
  have "u = takeWhile isDigit u @ dropWhile isDigit u"
    by simp
  moreover have "isDigits (takeWhile isDigit u)"
    using assms by (auto simp: isDigits_def list_all_iff dest: set_takeWhileD)
  moreover have "notDigitFirst (dropWhile isDigit u)"
    by (induction u) (simp_all add: notDigitFirst_def)
  ultimately show ?thesis by blast
qed

lemma parseInt10_accepts:
  "parseInt10 f \<noteq> NaN \<longleftrightarrow>
     (\<exists>w sg ds rest. f = w @ sg @ ds @ rest \<and> list_all isSpace w
        \<and> (sg = [] \<or> sg = ''+'' \<or> sg = ''-'') \<and> isDigits ds \<and> notDigitFirst rest)"
proof
  assume "parseInt10 f \<noteq> NaN"
  then obtain sg u where t: "dropWhile isSpace f = sg @ u"
      and sg: "sg = [] \<or> sg = ''+'' \<or> sg = ''-''" and u: "takeWhile isDigit u \<noteq> []"
    unfolding parseInt10_NaN_iff using sign_split [of "dropWhile isSpace f"] by blast
  from digits_split [OF u] obtain ds rest where
    d: "u = ds @ rest" "isDigits ds" "notDigitFirst rest"
    by blast
  have "f = takeWhile isSpace f @ dropWhile isSpace f"
    by simp
  with t d(1) have "f = takeWhile isSpace f @ sg @ ds @ rest"
    by simp
  moreover have "list_all isSpace (takeWhile isSpace f)"
    by (auto simp: list_all_iff dest: set_takeWhileD)
  ultimately show "\<exists>w sg ds rest. f = w @ sg @ ds @ rest \<and> list_all isSpace w
        \<and> (sg = [] \<or> sg = ''+'' \<or> sg = ''-'') \<and> isDigits ds \<and> notDigitFirst rest"
    using sg d(2,3) by blast
next
  assume "\<exists>w sg ds rest. f = w @ sg @ ds @ rest \<and> list_all isSpace w
        \<and> (sg = [] \<or> sg = ''+'' \<or> sg = ''-'') \<and> isDigits ds \<and> notDigitFirst rest"
  then obtain w sg ds rest where f: "f = w @ sg @ ds @ rest" and h: "list_all isSpace w"
      "isDigits ds" "notDigitFirst rest" and sg: "sg = [] \<or> sg = ''+'' \<or> sg = ''-''"
    by blast
  from sg show "parseInt10 f \<noteq> NaN"
    unfolding f using parseInt10_unsigned [OF h] parseInt10_signed [OF h]
    by (auto simp: toDouble_not_NaN)
qed

lemma orZero_id: "x \<noteq> NaN \<Longrightarrow> orZero x = x"
  by (cases x) (simp_all add: orZero_def)

lemma joinColon_two_nonempty: "joinColon (f1 # f2 # rest) \<noteq> []"
  by simp

lemma parseDelayToHours_no_colon: "CHR '':'' \<notin> set d \<Longrightarrow> parseDelayToHours d = Finite 0"
  by (simp add: parseDelayToHours_def splitOn_no_separator)

lemma parseDelayToHours_rejected:
  assumes "list_all colonFree fs" and "list_ex (\<lambda>f. parseInt10 f = NaN) fs"
  shows "parseDelayToHours (joinColon fs) = Finite 0"
proof (cases "fs = []")
  case True
  then show ?thesis by (simp add: parseDelayToHours_def)
next
  case False
  from assms(2) have "list_ex (\<lambda>n. n = NaN) (map parseInt10 fs)"
    by (force simp: list_ex_iff)
  then show ?thesis
    by (simp add: parseDelayToHours_def splitOn_joinColon [OF False assms(1)] Let_def)
qed

lemma parseDelayToHours_accepted:
  assumes "list_all colonFree (f1 # f2 # rest)"
      and "list_all (\<lambda>f. parseInt10 f \<noteq> NaN) (f1 # f2 # rest)"
  shows "parseDelayToHours (joinColon (f1 # f2 # rest)) =
           addNumber (addNumber (parseInt10 f1) (divByConst (parseInt10 f2) 60))
                     (divByConst (case rest of [] \<Rightarrow> Finite 0 | f3 # others \<Rightarrow> parseInt10 f3) 3600)"
proof -
  have sp: "splitOn (CHR '':'') (joinColon (f1 # f2 # rest)) = f1 # f2 # rest"
    using assms(1) by (intro splitOn_joinColon) simp_all
  from assms(2) have no: "\<not> list_ex (\<lambda>n. n = NaN) (map parseInt10 (f1 # f2 # rest))"
    by (auto simp: list_ex_iff list_all_iff)
  from assms(2) have p: "parseInt10 f1 \<noteq> NaN" "parseInt10 f2 \<noteq> NaN"
    by simp_all
  have third: "fieldOrZero (map parseInt10 (f1 # f2 # rest)) 2 =
               (case rest of [] \<Rightarrow> Finite 0 | f3 # others \<Rightarrow> parseInt10 f3)"
    using assms(2) by (cases rest) (simp_all add: fieldOrZero_def orZero_id)
  have "parseDelayToHours (joinColon (f1 # f2 # rest)) =
          addNumber (addNumber (fieldOrZero (map parseInt10 (f1 # f2 # rest)) 0)
                               (divByConst (fieldOrZero (map parseInt10 (f1 # f2 # rest)) 1) 60))
                    (divByConst (fieldOrZero (map parseInt10 (f1 # f2 # rest)) 2) 3600)"
    unfolding parseDelayToHours_def sp Let_def using no
    by (simp add: joinColon_two_nonempty del: joinColon.simps)
  then show ?thesis
    unfolding third using p by (simp add: fieldOrZero_def orZero_id)
qed

text \<open>
  C3, as stated, fails: a string that is not of the form \<open>HH:MM:SS\<close> need not give 0. Each
  field is read by \<open>parseInt\<close>, which stops at the first character that is not a digit, so the
  field \<open>12abc\<close> counts as 12.
\<close>

theorem parseDelayToHours_malformed_counterexample:
  "\<not> wellFormedDelay ''12abc:30:00'' \<and> parseDelayToHours ''12abc:30:00'' = Finite (25 / 2)"
  by code_simp

text \<open>
  C3, amended. \<open>parseDelayToHours\<close> is total. A string without a colon gives 0. Every string
  is its colon-free fields joined by colons; when there are at least two fields, the result is
  0 if \<open>parseInt\<close> rejects one of them, whichever it is, and otherwise it is
  \<open>(hh + mm / 60) + ss / 3600\<close> in the arithmetic of doubles, where \<open>hh\<close>, \<open>mm\<close>, \<open>ss\<close> are what
  \<open>parseInt\<close> gives for the first three fields and \<open>ss\<close> is 0 when there is no third field.
  \<open>parseInt\<close> accepts a field exactly when, after white space and at most one sign, it
  begins with a digit; its value is the double nearest to the signed number written by the run
  of digits there, which is that number itself below \<open>2 ^ 53\<close>, and what follows the digits is
  ignored. The three examples of the claim hold.
\<close>

theorem parseDelayToHours_amended:
  "(CHR '':'' \<notin> set d \<longrightarrow> parseDelayToHours d = Finite 0)
   \<and> joinColon (splitOn (CHR '':'') d) = d \<and> list_all colonFree (splitOn (CHR '':'') d)
   \<and> (list_all colonFree (f1 # f2 # rest) \<and> list_ex (\<lambda>f. parseInt10 f = NaN) (f1 # f2 # rest) \<longrightarrow>
        parseDelayToHours (joinColon (f1 # f2 # rest)) = Finite 0)
   \<and> (list_all colonFree (f1 # f2 # rest) \<and> list_all (\<lambda>f. parseInt10 f \<noteq> NaN) (f1 # f2 # rest) \<longrightarrow>
        parseDelayToHours (joinColon (f1 # f2 # rest)) =
          addNumber (addNumber (parseInt10 f1) (divByConst (parseInt10 f2) 60))
                    (divByConst (case rest of [] \<Rightarrow> Finite 0 | f3 # others \<Rightarrow> parseInt10 f3) 3600))
   \<and> (parseInt10 f \<noteq> NaN \<longleftrightarrow>
        (\<exists>w sg ds junk. f = w @ sg @ ds @ junk \<and> list_all isSpace w
           \<and> (sg = [] \<or> sg = ''+'' \<or> sg = ''-'') \<and> isDigits ds \<and> notDigitFirst junk))
   \<and> (list_all isSpace w \<and> isDigits ds \<and> notDigitFirst junk \<longrightarrow>
        parseInt10 (w @ ds @ junk) = toDouble (of_int (digitsValue ds))
        \<and> parseInt10 (w @ ''+'' @ ds @ junk) = toDouble (of_int (digitsValue ds))
        \<and> parseInt10 (w @ ''-'' @ ds @ junk) = toDouble (- of_int (digitsValue ds)))
   \<and> (\<bar>n\<bar> < 2 ^ 53 \<longrightarrow> toDouble (of_int n) = Finite (of_int n))
   \<and> parseDelayToHours ''02:30:00'' = Finite (5 / 2)
   \<and> parseDelayToHours [] = Finite 0
   \<and> parseDelayToHours ''garbage'' = Finite 0
   \<and> parseDelayToHours ''12:30abc:00'' = Finite (25 / 2)
   \<and> parseDelayToHours ''1: 30:0:9'' = Finite (3 / 2)
   \<and> parseDelayToHours ''00:20:00'' = Finite (6004799503160661 / 18014398509481984)"
proof -
  have ex: "parseDelayToHours ''02:30:00'' = Finite (5 / 2)"
      "parseDelayToHours [] = Finite 0"
      "parseDelayToHours ''garbage'' = Finite 0"
      "parseDelayToHours ''12:30abc:00'' = Finite (25 / 2)"
      "parseDelayToHours ''1: 30:0:9'' = Finite (3 / 2)"
      "parseDelayToHours ''00:20:00'' = Finite (6004799503160661 / 18014398509481984)"
    by code_simp+
  note parts = parseDelayToHours_no_colon [of d] joinColon_splitOn [of d] colonFree_splitOn [of d]
    parseDelayToHours_rejected [of "f1 # f2 # rest"] parseDelayToHours_accepted [of f1 f2 rest]
    parseInt10_accepts [of f] parseInt10_unsigned [of w ds junk] parseInt10_signed [of w ds junk]
    toDouble_of_int [of n]
  show ?thesis
    by (intro conjI impI; (elim conjE)?; (rule parts ex; assumption?))
qed

theorem parseDelayToHours_amended_witness:
  "list_all colonFree [''01'', '' 15min'', ''00'', ''7'']
   \<and> list_all (\<lambda>f. parseInt10 f \<noteq> NaN) [''01'', '' 15min'', ''00'', ''7'']
   \<and> parseDelayToHours ''01: 15min:00:7'' = Finite (5 / 4)
   \<and> list_ex (\<lambda>f. parseInt10 f = NaN) [''01'', ''15'', ''x'']
   \<and> parseDelayToHours ''01:15:x'' = Finite 0
   \<and> CHR '':'' \<notin> set ''0115''
   \<and> parseDelayToHours ''0115'' = Finite 0
   \<and> parseInt10 ('' '' @ ''-'' @ ''12'' @ ''abc'') = Finite (- 12)"
proof -
  let ?fs = "[''01'', '' 15min'', ''00'', ''7'']" and ?gs = "[''01'', ''15'', ''x'']"
  have cf: "list_all colonFree ?fs" "list_all colonFree ?gs"
    by code_simp+
  have ok: "list_all (\<lambda>f. parseInt10 f \<noteq> NaN) ?fs"
    by code_simp
  have bad: "list_ex (\<lambda>f. parseInt10 f = NaN) ?gs"
    by code_simp
  have nc: "CHR '':'' \<notin> set ''0115''"
    by simp
  have sp: "list_all isSpace '' ''" and dg: "isDigits ''12''" and nd: "notDigitFirst ''abc''"
    by code_simp+
  have val: "addNumber (addNumber (parseInt10 ''01'') (divByConst (parseInt10 '' 15min'') 60))
               (divByConst (parseInt10 ''00'') 3600) = Finite (5 / 4)"
    by code_simp
  have dv: "digitsValue ''12'' = 12"
    by code_simp
  have small: "\<bar>- 12 :: int\<bar> < 2 ^ 53"
    by simp
  from parseDelayToHours_amended [of "''0115''" "''01''" "'' 15min''" "[''00'', ''7'']" _ "'' ''" "''12''" "''abc''" "- 12"]
    cf(1) ok nc sp dg nd small val
  have 1: "parseDelayToHours ''01: 15min:00:7'' = Finite (5 / 4)"
    and 2: "parseDelayToHours ''0115'' = Finite 0"
    and 3: "parseInt10 ('' '' @ ''-'' @ ''12'' @ ''abc'') = Finite (- 12)"
    by (simp_all add: dv)
  from parseDelayToHours_amended [of _ "''01''" "''15''" "[''x'']"] cf(2) bad
  have 4: "parseDelayToHours ''01:15:x'' = Finite 0"
    by simp
  from cf(1) ok bad nc 1 2 3 4 show ?thesis
    by blast
qed

section \<open>The route key\<close>

lemma isSpace_toLowerChar: "isSpace (toLowerChar c) = isSpace c"
proof -
  have "0 \<le> (of_char c :: int)"
    by (cases c) simp
  then have "of_char (char_of (of_char c + 32 :: int)) = (of_char c + 32 :: int)"
    if "(of_char c :: int) \<le> 222"
    using that by (simp add: of_char_of)
  then show ?thesis
    by (auto simp: isSpace_def toLowerChar_def Let_def)
qed

lemma removeSpaces_toLowerCase: "removeSpaces (toLowerCase s) = toLowerCase (removeSpaces s)"
  by (simp add: removeSpaces_def toLowerCase_def filter_map comp_def isSpace_toLowerChar)

lemma removeSpaces_dropWhile: "removeSpaces (dropWhile isSpace s) = removeSpaces s"
  by (induction s) (auto simp: removeSpaces_def)

lemma removeSpaces_rev: "removeSpaces (rev s) = rev (removeSpaces s)"
  by (simp add: removeSpaces_def rev_filter)

lemma removeSpaces_trim: "removeSpaces (trim s) = removeSpaces s"
  by (simp add: trim_def removeSpaces_rev removeSpaces_dropWhile)

lemma removeSpaces_append: "removeSpaces (a @ b) = removeSpaces a @ removeSpaces b"
  by (simp add: removeSpaces_def)

lemma removeSpaces_blank: "list_all isSpace a \<Longrightarrow> removeSpaces a = []"
  by (induction a) (auto simp: removeSpaces_def)

lemma normalizeSimple_trim: "normalizeSimple (trim s) = normalizeSimple s"
  by (simp add: normalizeSimple_def removeSpaces_toLowerCase removeSpaces_trim)

lemma normalizeSimple_padded:
  "list_all isSpace a \<Longrightarrow> list_all isSpace b \<Longrightarrow> normalizeSimple (a @ s @ b) = normalizeSimple s"
  by (simp add: normalizeSimple_def removeSpaces_toLowerCase removeSpaces_append removeSpaces_blank)

lemma toLower_toUpper_char:
  assumes "(of_char c :: int) < 128"
  shows "map toLowerChar (toUpperChar c) = [toLowerChar c]"
proof (cases "97 \<le> (of_char c :: int) \<and> (of_char c :: int) \<le> 122")
  case True
  then have up: "toUpperChar c = [char_of (of_char c - 32 :: int)]"
    by (simp add: toUpperChar_def Let_def)
  from True have code: "of_char (char_of (of_char c - 32 :: int)) = (of_char c - 32 :: int)"
    by (simp add: of_char_of)
  from True have "toLowerChar (char_of (of_char c - 32 :: int)) = char_of (of_char c :: int)"
    unfolding toLowerChar_def code Let_def by auto
  moreover from True have "toLowerChar c = c"
    by (simp add: toLowerChar_def Let_def)
  ultimately show ?thesis
    by (simp add: up)
next
  case False
  with assms have "toUpperChar c = [c]"
    by (auto simp: toUpperChar_def Let_def)
  then show ?thesis
    by simp
qed

lemma toLowerCase_toUpperCase:
  "isAscii s \<Longrightarrow> toLowerCase (toUpperCase s) = toLowerCase s"
  by (induction s) (simp_all add: isAscii_def toLowerCase_def toUpperCase_def toLower_toUpper_char)

lemma normalizeSimple_toUpperCase:
  "isAscii s \<Longrightarrow> normalizeSimple (toUpperCase s) = normalizeSimple s"
  by (simp add: normalizeSimple_def toLowerCase_toUpperCase)

text \<open>
  C8, as stated for all strings, fails: the capital of the sharp s (U+00DF) is \<open>SS\<close>, which
  \<open>normalizeSimple\<close> turns into \<open>ss\<close>, while it leaves the sharp s itself unchanged.
\<close>

theorem makeRouteKey_upper_counterexample:
  "makeRouteKey [CHR 0xDF] ''a'' \<noteq> makeRouteKey (toUpperCase [CHR 0xDF]) (toUpperCase ''a'')
   \<and> makeRouteKey [CHR 0xDF] ''a'' = [CHR 0xDF] @ ''___a''
   \<and> makeRouteKey (toUpperCase [CHR 0xDF]) (toUpperCase ''a'') = ''ss___a''"
  by code_simp

text \<open>
  C8, amended. For strings of ASCII characters \<open>makeRouteKey s t\<close> is
  \<open>makeRouteKey (upper s) (upper t)\<close>. For all strings the key does not change when either
  argument is trimmed or is surrounded by white space.
\<close>

theorem makeRouteKey_case_and_space:
  "(isAscii s \<and> isAscii t \<longrightarrow> makeRouteKey s t = makeRouteKey (toUpperCase s) (toUpperCase t))
   \<and> makeRouteKey (trim s) (trim t) = makeRouteKey s t
   \<and> (list_all isSpace a \<and> list_all isSpace b \<and> list_all isSpace c \<and> list_all isSpace d \<longrightarrow>
        makeRouteKey (a @ s @ b) (c @ t @ d) = makeRouteKey s t)"
  by (simp add: makeRouteKey_def normalizeSimple_toUpperCase normalizeSimple_trim
        normalizeSimple_padded)

theorem makeRouteKey_case_and_space_witness:
  "isAscii ''Lucknow-11'' \<and> isAscii ''Ambala (AML11)''
   \<and> list_all isSpace '' '' \<and> list_all isSpace []
   \<and> makeRouteKey ''Lucknow-11'' ''Ambala (AML11)'' = makeRouteKey ''LUCKNOW-11'' ''AMBALA (AML11)''
   \<and> makeRouteKey ('' '' @ ''Lucknow-11'' @ '' '') ([] @ ''Ambala (AML11)'' @ '' '')
       = makeRouteKey ''Lucknow-11'' ''Ambala (AML11)''"
proof -
  have a: "isAscii ''Lucknow-11''" "isAscii ''Ambala (AML11)''"
    by code_simp+
  have b: "list_all isSpace '' ''" "list_all isSpace []"
    by code_simp+
  have u: "toUpperCase ''Lucknow-11'' = ''LUCKNOW-11''" "toUpperCase ''Ambala (AML11)'' = ''AMBALA (AML11)''"
    by code_simp+
  from makeRouteKey_case_and_space [of "''Lucknow-11''" "''Ambala (AML11)''" "'' ''" "'' ''" "[]" "'' ''"] a b
  have "makeRouteKey ''Lucknow-11'' ''Ambala (AML11)'' = makeRouteKey ''LUCKNOW-11'' ''AMBALA (AML11)''"
    and "makeRouteKey ('' '' @ ''Lucknow-11'' @ '' '') ([] @ ''Ambala (AML11)'' @ '' '')
       = makeRouteKey ''Lucknow-11'' ''Ambala (AML11)''"
    unfolding u by blast+
  with a b show ?thesis
    by blast
qed

section \<open>Precedence of the telemetry coordinates\<close>

text \<open>
  C9. For every row handed to \<open>attachLocationCoordsFromFms\<close> and for each of its two endpoints:
  when the lookup in the telemetry dropdowns gives a coordinate and the row also carries a
  coordinate of the reference route, the coordinate of the row after the call is the one from
  the telemetry lookup. This holds for latitude and longitude alike.
\<close>

theorem attach_prefers_fms:
  assumes "i < length merged"
  shows "(fst (fmsSource loc (merged ! i)) \<noteq> None \<and> routeSourceLat (merged ! i) \<noteq> None \<longrightarrow>
            routeSourceLat (attachLocationCoordsFromFms merged loc ! i) = fst (fmsSource loc (merged ! i)))
       \<and> (snd (fmsSource loc (merged ! i)) \<noteq> None \<and> routeSourceLng (merged ! i) \<noteq> None \<longrightarrow>
            routeSourceLng (attachLocationCoordsFromFms merged loc ! i) = snd (fmsSource loc (merged ! i)))
       \<and> (fst (fmsDestination loc (merged ! i)) \<noteq> None \<and> routeDestinationLat (merged ! i) \<noteq> None \<longrightarrow>
            routeDestinationLat (attachLocationCoordsFromFms merged loc ! i) = fst (fmsDestination loc (merged ! i)))
       \<and> (snd (fmsDestination loc (merged ! i)) \<noteq> None \<and> routeDestinationLng (merged ! i) \<noteq> None \<longrightarrow>
            routeDestinationLng (attachLocationCoordsFromFms merged loc ! i) = snd (fmsDestination loc (merged ! i)))"
  using assms
  by (auto simp: attachLocationCoordsFromFms_def attachRow_def orElse_def Let_def)

lemma example_fms:
  "fmsSource exampleLocationMaps exampleWithRouteCoords = (Some (26), Some (80))"
  "fmsDestination exampleLocationMaps exampleWithRouteCoords = (Some (30), Some (76))"
  by code_simp+

lemma example_db:
  "routeSourceLat exampleWithRouteCoords = Some 1" "routeSourceLng exampleWithRouteCoords = Some 2"
  "routeDestinationLat exampleWithRouteCoords = Some 3" "routeDestinationLng exampleWithRouteCoords = Some 4"
  by (simp_all add: exampleWithRouteCoords_def)

theorem attach_prefers_fms_witness:
  "(0::nat) < length [exampleWithRouteCoords]
   \<and> routeSourceLat exampleWithRouteCoords = Some 1
   \<and> routeDestinationLat exampleWithRouteCoords = Some 3
   \<and> routeSourceLat (attachLocationCoordsFromFms [exampleWithRouteCoords] exampleLocationMaps ! 0) = Some (26)
   \<and> routeSourceLng (attachLocationCoordsFromFms [exampleWithRouteCoords] exampleLocationMaps ! 0) = Some (80)
   \<and> routeDestinationLat (attachLocationCoordsFromFms [exampleWithRouteCoords] exampleLocationMaps ! 0) = Some (30)
   \<and> routeDestinationLng (attachLocationCoordsFromFms [exampleWithRouteCoords] exampleLocationMaps ! 0) = Some (76)"
proof -
  have len: "(0::nat) < length [exampleWithRouteCoords]"
    by simp
  from attach_prefers_fms [OF len, of exampleLocationMaps]
  show ?thesis
    by (simp add: example_fms example_db)
qed

section \<open>The tiers of the fuzzy matcher\<close>

lemma toLowerCase_trim: "toLowerCase (trim s) = trim (toLowerCase s)"
proof -
  have dw: "dropWhile isSpace (map toLowerChar xs) = map toLowerChar (dropWhile isSpace xs)" for xs
    by (simp add: dropWhile_map comp_def isSpace_toLowerChar)
  show ?thesis
    by (simp add: toLowerCase_def trim_def dw rev_map)
qed

lemma exactMatch_case_insensitive:
  "toLowerCase (name l) = toLowerCase q \<Longrightarrow> exactMatch q l"
  by (simp add: exactMatch_def toLowerCase_trim)

lemma find_first:
  assumes "x \<in> set xs" and "P x"
  shows "\<exists>i<length xs. find P xs = Some (xs ! i) \<and> P (xs ! i) \<and> (\<forall>j<i. \<not> P (xs ! j))"
proof -
  from assms obtain y where "find P xs = Some y"
    by (cases "find P xs") (auto simp: find_None_iff)
  then show ?thesis
    unfolding find_Some_iff by blast
qed

text \<open>
  C4, amended. For a blank query \<open>findBestLocationMatch\<close> returns none. For a query that is
  not blank: when the name of some candidate equals the query up to case, it returns the first
  candidate of the list that passes the test of tier 1 (equality up to case after trimming),
  whatever the threshold and whatever the later tiers would find; this is the candidate itself
  when no other row passes the test.
\<close>

theorem exact_match_wins:
  "(trim q = [] \<longrightarrow> findBestLocationMatch q locs threshold = None)
   \<and> (trim q \<noteq> [] \<and> c \<in> set locs \<and> toLowerCase (name c) = toLowerCase q \<longrightarrow>
        (\<exists>i<length locs.
           findBestLocationMatch q locs threshold = Some (locs ! i)
           \<and> exactMatch q (locs ! i) \<and> (\<forall>j<i. \<not> exactMatch q (locs ! j))
           \<and> ((\<forall>l \<in> set locs. exactMatch q l \<longrightarrow> l = c) \<longrightarrow> locs ! i = c)))"
proof (intro conjI impI)
  assume "trim q = []"
  then show "findBestLocationMatch q locs threshold = None"
    by (simp add: findBestLocationMatch_def)
next
  assume a: "trim q \<noteq> [] \<and> c \<in> set locs \<and> toLowerCase (name c) = toLowerCase q"
  then have "exactMatch q c"
    by (intro exactMatch_case_insensitive) simp
  with a find_first [of c locs "exactMatch q"]
  obtain i where i: "i < length locs" "find (exactMatch q) locs = Some (locs ! i)"
      "exactMatch q (locs ! i)" "\<forall>j<i. \<not> exactMatch q (locs ! j)"
    by blast
  from a have "locs \<noteq> []"
    by auto
  with a i(2) have "findBestLocationMatch q locs threshold = Some (locs ! i)"
    by (simp add: findBestLocationMatch_def)
  moreover from i(1) have "locs ! i \<in> set locs"
    by simp
  ultimately show "\<exists>i<length locs.
           findBestLocationMatch q locs threshold = Some (locs ! i)
           \<and> exactMatch q (locs ! i) \<and> (\<forall>j<i. \<not> exactMatch q (locs ! j))
           \<and> ((\<forall>l \<in> set locs. exactMatch q l \<longrightarrow> l = c) \<longrightarrow> locs ! i = c)"
    using i by blast
qed

text \<open>
  C4, as stated for every query, fails: a blank query is answered with none before any tier
  is tried, also when a candidate has the very same name.
\<close>

theorem blank_query_counterexample:
  "toLowerCase (name blankLocation) = toLowerCase '' ''
   \<and> findBestLocationMatch '' '' [blankLocation] (9 / 10) = None"
  by code_simp

theorem exact_match_wins_witness:
  "trim ''agra'' \<noteq> [] \<and> exampleLocations ! 1 \<in> set exampleLocations
   \<and> toLowerCase (name (exampleLocations ! 1)) = toLowerCase ''agra''
   \<and> searchMatch (buildEndpointCoreKey ''agra'') (exampleLocations ! 0)
   \<and> findBestLocationMatch ''agra'' exampleLocations (9 / 10) = Some (exampleLocations ! 1)
   \<and> trim '' '' = []
   \<and> findBestLocationMatch '' '' exampleLocations (9 / 10) = None"
proof -
  have h: "trim ''agra'' \<noteq> []" "exampleLocations ! 1 \<in> set exampleLocations"
      "toLowerCase (name (exampleLocations ! 1)) = toLowerCase ''agra''"
    by code_simp+
  have s: "searchMatch (buildEndpointCoreKey ''agra'') (exampleLocations ! 0)"
    by code_simp
  have n: "\<not> exactMatch ''agra'' (exampleLocations ! 0)"
    by code_simp
  have b: "trim '' '' = []"
    by code_simp
  from exact_match_wins [of "''agra''" exampleLocations "9 / 10" "exampleLocations ! 1"] h
  obtain i where
    i: "i < length exampleLocations"
       "findBestLocationMatch ''agra'' exampleLocations (9 / 10) = Some (exampleLocations ! i)"
       "exactMatch ''agra'' (exampleLocations ! i)"
    by blast
  from i(1) have "i = 0 \<or> i = 1"
    by (auto simp: exampleLocations_def)
  with i(3) n have "i = 1"
    by auto
  moreover from exact_match_wins [of "'' ''" exampleLocations "9 / 10"] b
  have "findBestLocationMatch '' '' exampleLocations (9 / 10) = None"
    by blast
  ultimately show ?thesis
    using h s i(2) b by simp
qed

lemma scoreStep_below:
  assumes "fst acc = None \<or> fst (snd acc) < th"
      and "score (computeLocationMatchScore q (name l)) < th"
  shows "fst (scoreStep q acc l) = None \<or> fst (snd (scoreStep q acc l)) < th"
  using assms by (cases acc) (auto simp: scoreStep_def Let_def)

lemma foldl_scoreStep_below:
  assumes "\<forall>l \<in> set locs. score (computeLocationMatchScore q (name l)) < th"
      and "fst acc = None \<or> fst (snd acc) < th"
  shows "fst (foldl (scoreStep q) acc locs) = None \<or> fst (snd (foldl (scoreStep q) acc locs)) < th"
  using assms
proof (induction locs arbitrary: acc)
  case Nil
  then show ?case by simp
next
  case (Cons l locs)
  from Cons.prems have "fst (scoreStep q acc l) = None \<or> fst (snd (scoreStep q acc l)) < th"
    by (intro scoreStep_below) simp_all
  with Cons.IH [of "scoreStep q acc l"] Cons.prems(1) show ?case
    by simp
qed

lemma bestByScore_below:
  assumes "\<forall>l \<in> set locs. score (computeLocationMatchScore q (name l)) < th"
  shows "bestByScore q locs th = None"
proof -
  from foldl_scoreStep_below [OF assms, of "(None, 0, False)"]
  have "fst (foldl (scoreStep q) (None, 0, False) locs) = None
        \<or> fst (snd (foldl (scoreStep q) (None, 0, False) locs)) < th"
    by simp
  then show ?thesis
    by (cases "foldl (scoreStep q) (None, 0, False) locs")
       (auto simp: bestByScore_def split: option.splits)
qed

text \<open>
  C5. \<open>findBestLocationMatch\<close> with the threshold 0.9 returns none when no candidate passes
  the test of tier 1, of tier 2 or of tier 3, no candidate has the parenthetical code of the
  query, and the Jaccard score of every candidate is below 0.9. The function is total.
\<close>

theorem no_match_below_threshold:
  assumes "\<forall>l \<in> set locs. \<not> exactMatch q l"
      and "\<forall>l \<in> set locs. \<not> exactNoSpaceMatch q l"
      and "buildEndpointCoreKey q = [] \<or> (\<forall>l \<in> set locs. \<not> searchMatch (buildEndpointCoreKey q) l)"
      and "\<forall>l \<in> set locs. \<not> (extractCodeLower q \<noteq> [] \<and> extractCodeLower (name l) = extractCodeLower q)"
      and "\<forall>l \<in> set locs. jaccardSimilarity (tokenizeNameWithoutCode q)
                                             (tokenizeNameWithoutCode (name l)) < 9 / 10"
  shows "findBestLocationMatch q locs (9 / 10) = None"
proof -
  have t1: "find (exactMatch q) locs = None"
    using assms(1) by (simp add: find_None_iff)
  have t2: "find (exactNoSpaceMatch q) locs = None"
    using assms(2) by (simp add: find_None_iff)
  have t3: "(if buildEndpointCoreKey q = [] then None
             else find (searchMatch (buildEndpointCoreKey q)) locs) = None"
    using assms(3) by (auto simp: find_None_iff)
  have "score (computeLocationMatchScore q (name l)) < 9 / 10" if "l \<in> set locs" for l
    using that assms(4,5) by (auto simp: computeLocationMatchScore_def Let_def)
  then have t4: "bestByScore q locs (9 / 10) = None"
    by (intro bestByScore_below) simp
  show ?thesis
    by (simp add: findBestLocationMatch_def t1 t2 t3 t4 Let_def)
qed

theorem no_match_below_threshold_witness:
  "jaccardSimilarity (tokenizeNameWithoutCode ''Agra North (A1)'')
                     (tokenizeNameWithoutCode (name (exampleFarLocations ! 0))) = 1 / 3
   \<and> extractCodeLower ''Agra North (A1)'' = ''a1''
   \<and> findBestLocationMatch ''Agra North (A1)'' exampleFarLocations (9 / 10) = None"
proof -
  let ?q = "''Agra North (A1)''"
  have h1: "\<forall>l \<in> set exampleFarLocations. \<not> exactMatch ?q l"
    by code_simp
  have h2: "\<forall>l \<in> set exampleFarLocations. \<not> exactNoSpaceMatch ?q l"
    by code_simp
  have h3: "buildEndpointCoreKey ?q = []
            \<or> (\<forall>l \<in> set exampleFarLocations. \<not> searchMatch (buildEndpointCoreKey ?q) l)"
    by code_simp
  have h4: "\<forall>l \<in> set exampleFarLocations.
              \<not> (extractCodeLower ?q \<noteq> [] \<and> extractCodeLower (name l) = extractCodeLower ?q)"
    by code_simp
  have h5: "\<forall>l \<in> set exampleFarLocations.
              jaccardSimilarity (tokenizeNameWithoutCode ?q) (tokenizeNameWithoutCode (name l)) < 9 / 10"
    by code_simp
  have j: "jaccardSimilarity (tokenizeNameWithoutCode ?q)
             (tokenizeNameWithoutCode (name (exampleFarLocations ! 0))) = 1 / 3"
    and c: "extractCodeLower ?q = ''a1''"
    by code_simp+
  from no_match_below_threshold [OF h1 h2 h3 h4 h5] j c show ?thesis
    by blast
qed


end
